theory Spec2Isabelle
  imports Complex_Main
begin

section \<open>Strings\<close>

text \<open>
  JavaScript strings are modelled as \<^typ>\<open>string\<close>, one \<^typ>\<open>char\<close> per code unit
  (Latin-1 range). \<open>split\<close> is \<^verbatim>\<open>s.split(c)\<close> for a one-character separator: the
  result always has one more element than \<open>s\<close> has separators, so it is never empty.
\<close>

fun split :: "char \<Rightarrow> string \<Rightarrow> string list" where
  "split c [] = [[]]"
| "split c (x # xs) =
     (if x = c then [] # split c xs
      else (x # hd (split c xs)) # tl (split c xs))"

text \<open>
  The white space that \<^verbatim>\<open>String.prototype.trim\<close> removes, within the Latin-1 range:
  TAB, LF, VT, FF, CR, SPACE and NBSP.
\<close>

definition isWhiteSpace :: "char \<Rightarrow> bool" where
  "isWhiteSpace c \<longleftrightarrow> of_char c \<in> {9, 10, 11, 12, 13, 32, 160 :: nat}"

definition trim :: "string \<Rightarrow> string" where
  "trim s = rev (dropWhile isWhiteSpace (rev (dropWhile isWhiteSpace s)))"

section \<open>Cookie jars\<close>

text \<open>
  \<^verbatim>\<open>type Cookies = Record<string, string>\<close>. Jars are JavaScript objects: they live in
  a store and are passed by reference, so that it can be said which object an update
  touches. A reference is an index into the store; allocation appends.
\<close>

type_synonym Cookies = "string \<rightharpoonup> string"

type_synonym store = "Cookies list"

type_synonym ref = nat

definition alloc :: "Cookies \<Rightarrow> store \<Rightarrow> ref \<times> store" where
  "alloc jar h = (length h, h @ [jar])"

text \<open>
  \<^verbatim>\<open>safeUpdateCookie(cookie, updatedCookies)\<close> mutates the jar behind the reference and
  returns nothing. \<^verbatim>\<open>const [key, value] = splitCookie[0].split('=')\<close> takes the first
  two pieces; a missing piece is \<^verbatim>\<open>undefined\<close> and the function returns early.
  The jar is a plain object, so the assignment of line 115 to the key \<^verbatim>\<open>__proto__\<close>
  goes to the setter of the prototype, which ignores a string: nothing is stored.
\<close>

definition safeUpdateCookie :: "string \<Rightarrow> ref \<Rightarrow> store \<Rightarrow> store" where
  "safeUpdateCookie cookie updatedCookies h =
     (let splitCookie = split CHR '';'' cookie in
      if length splitCookie \<noteq> 1 then h
      else (case splitCookie of
              [] \<Rightarrow> h
            | s0 # _ \<Rightarrow>
               (case split CHR ''='' s0 of
                  key # value # _ \<Rightarrow>
                    if trim key = ''__proto__'' then h
                    else h[updatedCookies := (h ! updatedCookies)(trim key \<mapsto> trim value)]
                | _ \<Rightarrow> h)))"

text \<open>
  The fragment shared by \<^verbatim>\<open>postWithCookies\<close> (lines 93-100) and
  \<^verbatim>\<open>getBinaryDataWithCookies\<close> (lines 164-171):
  \<^verbatim>\<open>const updatedCookies = { ...cookies }\<close> allocates a fresh object holding the
  entries of the caller's jar, and every element of the \<^verbatim>\<open>set-cookie\<close> header (an
  array of strings, or \<^verbatim>\<open>undefined\<close> when the response has none) is passed to
  \<^verbatim>\<open>safeUpdateCookie\<close> in order. The result is the new reference and the store.
\<close>

definition mergeSetCookie :: "string list option \<Rightarrow> ref \<Rightarrow> store \<Rightarrow> ref \<times> store" where
  "mergeSetCookie setCookieHeader cookies h =
     (let (updatedCookies, h1) = alloc (h ! cookies) h in
      case setCookieHeader of
        None \<Rightarrow> (updatedCookies, h1)
      | Some cs \<Rightarrow> (updatedCookies, foldl (\<lambda>h' cookie. safeUpdateCookie cookie updatedCookies h') h1 cs))"

section \<open>Numbers\<close>

text \<open>
  A JavaScript number, as far as the throughput computation can produce one: a finite
  value, negative zero, the two infinities and NaN. Finite values are exact reals:
  the rounding of IEEE-754 doubles is not modelled, so the model agrees with the program
  where the quotient of two integers and its nearest integer are not affected by the
  53-bit mantissa (file sizes and durations far below \<open>2 ^ 52\<close>).
\<close>

datatype number = Num real | NegZero | PosInfinity | NegInfinity | NaN

definition isZero :: "number \<Rightarrow> bool" where
  "isZero x \<longleftrightarrow> x = Num 0 \<or> x = NegZero"

definition isInfinite :: "number \<Rightarrow> bool" where
  "isInfinite x \<longleftrightarrow> x = PosInfinity \<or> x = NegInfinity"

definition isNegative :: "number \<Rightarrow> bool" where
  "isNegative x = (case x of Num q \<Rightarrow> q < 0 | NegZero \<Rightarrow> True | NegInfinity \<Rightarrow> True | _ \<Rightarrow> False)"

definition finiteValue :: "number \<Rightarrow> real" where
  "finiteValue x = (case x of Num q \<Rightarrow> q | _ \<Rightarrow> 0)"

text \<open>The operator \<^verbatim>\<open>/\<close>: division by zero does not raise, it yields an infinity or NaN.\<close>

definition jsDivide :: "number \<Rightarrow> number \<Rightarrow> number" where
  "jsDivide x y =
     (if x = NaN \<or> y = NaN then NaN
      else if isInfinite x then
        (if isInfinite y then NaN
         else if isNegative x \<noteq> isNegative y then NegInfinity else PosInfinity)
      else if isInfinite y then (if isNegative x \<noteq> isNegative y then NegZero else Num 0)
      else if isZero y then
        (if isZero x then NaN
         else if isNegative x \<noteq> isNegative y then NegInfinity else PosInfinity)
      else if isZero x then (if isNegative x \<noteq> isNegative y then NegZero else Num 0)
      else Num (finiteValue x / finiteValue y))"

text \<open>The operator \<^verbatim>\<open>></\<close> against a finite constant; every comparison with NaN is false.\<close>

definition jsGreater :: "number \<Rightarrow> real \<Rightarrow> bool" where
  "jsGreater x c =
     (case x of Num q \<Rightarrow> q > c | NegZero \<Rightarrow> 0 > c | PosInfinity \<Rightarrow> True
      | NegInfinity \<Rightarrow> False | NaN \<Rightarrow> False)"

text \<open>
  \<^verbatim>\<open>Math.round\<close>: the nearest integer, ties towards \<open>+\<infinity>\<close>, that is
  \<open>\<lfloor>x + 1/2\<rfloor>\<close>; a result of zero from a negative argument is negative zero.
\<close>

definition mathRound :: "number \<Rightarrow> number" where
  "mathRound x =
     (case x of
        Num q \<Rightarrow> (if \<lfloor>q + 1 / 2\<rfloor> = 0 \<and> q < 0 then NegZero else Num (of_int \<lfloor>q + 1 / 2\<rfloor>))
      | _ \<Rightarrow> x)"

text \<open>Decimal digits of a natural number.\<close>

fun digits :: "nat \<Rightarrow> string" where
  "digits n =
     (if n < 10 then [''0123456789'' ! n]
      else digits (n div 10) @ [''0123456789'' ! (n mod 10)])"

declare digits.simps [simp del]

definition showInt :: "int \<Rightarrow> string" where
  "showInt i = (if i < 0 then ''-'' @ digits (nat (- i)) else digits (nat i))"

text \<open>
  A number inside a template literal. It is only applied to results of
  \<^verbatim>\<open>Math.round\<close> and to epoch milliseconds, which are integers of magnitude below
  \<open>10 ^ 21\<close>, where JavaScript prints plain decimal digits.
\<close>

definition toString :: "number \<Rightarrow> string" where
  "toString x =
     (case x of Num q \<Rightarrow> showInt \<lfloor>q\<rfloor> | NegZero \<Rightarrow> ''0'' | PosInfinity \<Rightarrow> ''Infinity''
      | NegInfinity \<Rightarrow> ''-Infinity'' | NaN \<Rightarrow> ''NaN'')"

section \<open>Dates (date-fns)\<close>

text \<open>
  A valid \<^verbatim>\<open>Date\<close> is its epoch time in milliseconds (\<^verbatim>\<open>getTime()\<close>). The
  functions of date-fns 2.30 that the program calls: \<^verbatim>\<open>isBefore\<close> compares the
  times, \<^verbatim>\<open>add(date, {minutes: m})\<close> adds \<open>m * 60 * 1000\<close> milliseconds, and
  \<^verbatim>\<open>differenceInMinutes\<close> / \<^verbatim>\<open>differenceInSeconds\<close> jsDivide the difference in
  milliseconds and truncate towards zero (their default rounding method), so that a
  difference between \<open>-1\<close> and \<open>0\<close> units is \<^verbatim>\<open>Math.ceil\<close> of a negative
  fraction: negative zero.
\<close>

definition isBefore :: "int \<Rightarrow> int \<Rightarrow> bool" where
  "isBefore date dateToCompare \<longleftrightarrow> date < dateToCompare"

definition add :: "int \<Rightarrow> int \<Rightarrow> int" where
  "add date minutes = date + minutes * 60 * 1000"

definition trunc :: "int \<Rightarrow> int \<Rightarrow> int" where
  "trunc a b = (if a < 0 then - ((- a) div b) else a div b)"

definition differenceInMinutes :: "int \<Rightarrow> int \<Rightarrow> int" where
  "differenceInMinutes dateLeft dateRight = trunc (dateLeft - dateRight) 60000"

definition differenceInSeconds :: "int \<Rightarrow> int \<Rightarrow> number" where
  "differenceInSeconds dateLeft dateRight =
     (if - 1000 < dateLeft - dateRight \<and> dateLeft - dateRight < 0 then NegZero
      else Num (of_int (trunc (dateLeft - dateRight) 1000)))"

text \<open>\<^verbatim>\<open>const maxMinuteDiff = { minutes: 60 }\<close>\<close>

definition maxMinuteDiff :: int where
  "maxMinuteDiff = 60"

section \<open>Throughput (fetchVideo, lines 323-333)\<close>

definition throughputString :: "nat \<Rightarrow> number \<Rightarrow> string" where
  "throughputString bytes diffInSeconds =
     (let throughput = jsDivide (Num (of_nat bytes)) diffInSeconds in
      if jsGreater throughput 1000000
      then toString (mathRound (jsDivide throughput (Num 1000000))) @ '' MB''
      else toString (mathRound throughput) @ '' B'')"

section \<open>Status events and errors\<close>

text \<open>
  The errors that can reject a promise or be thrown: a failed axios request (with the
  status of the response, if there was one), the \<^verbatim>\<open>error\<close> event of a stream, a
  failed ffmpeg run, and a file-system call on a missing path. \<open>Uncaught\<close> is the end
  of the process: an \<^verbatim>\<open>error\<close> event emitted on a stream that has no listener for it
  is raised by Node as an uncaught exception. No promise is rejected, and nothing that
  would have come after it runs.
\<close>

datatype error =
    AxiosError "nat option"
  | StreamError string
  | FfmpegError string
  | ENOENT string
  | Uncaught error

text \<open>The union \<^verbatim>\<open>Status\<close>, one constructor per \<^verbatim>\<open>StatusType\<close>.\<close>

datatype Status =
    Waiting
  | Downloading "string option"
  | DownloadThroughput string
  | Converting
  | Error error string

section \<open>The world outside the program\<close>

text \<open>
  What the appliance, the disk, ffmpeg and the clock do is not decided by the program.
  It is given by an environment of oracles, each indexed by how many times the program
  has asked so far: the reply to the \<open>n\<close>-th HTTP attempt, the course of the \<open>n\<close>-th
  streamed transfer, the outcome of the \<open>n\<close>-th ffmpeg run and the \<open>n\<close>-th reading of
  \<^verbatim>\<open>Date.now()\<close>. Two more oracles say whether the \<open>n\<close>-th write stream fails to
  open (a missing directory, a permission) and which progress events axios emits while the
  reply to the \<open>n\<close>-th attempt is received, before its promise settles. Formatting a date
  or a percentage depends on the time zone and the locale of the process, so both are
  oracles too.
\<close>

datatype Reply = NoResponse | Response nat "string list option"

datatype StreamEnd = Finish | WriterError error | ResponseError error

record Transfer =
  progress :: "real option list"
  written :: nat
  ending :: StreamEnd

record FfmpegRun =
  failure :: "error option"
  outputSize :: "nat option"

record Env =
  format :: "int \<Rightarrow> string"
  toLocalePercent :: "real \<Rightarrow> string"
  wire :: "nat \<Rightarrow> Reply"
  replyProgress :: "nat \<Rightarrow> real option list"
  openError :: "nat \<Rightarrow> error option"
  transfer :: "nat \<Rightarrow> Transfer"
  ffmpeg :: "nat \<Rightarrow> FfmpegRun"
  now :: "nat \<Rightarrow> int"

datatype Method = POST | GET

record Attempt =
  reqMethod :: Method
  reqUrl :: string
  reqDelay :: nat

text \<open>
  The state the program reads and changes: the files of the working directory (name to
  size), the store of cookie jars, the retry configuration installed on the shared axios
  instance (\<open>None\<close> until \<^verbatim>\<open>axiosRetry\<close> is first called), every HTTP attempt put on
  the wire, every status passed to the callback, the lines of \<^verbatim>\<open>console.log\<close>, and
  the counters of the oracles.
\<close>

record World =
  files :: "string \<rightharpoonup> nat"
  jars :: store
  retryConfig :: "nat option"
  sent :: "Attempt list"
  statuses :: "Status list"
  console :: "string list"
  opened :: nat
  transfers :: nat
  conversions :: nat
  clock :: nat

text \<open>\<^verbatim>\<open>args.statusCallback?.(status)\<close>: the callback is optional.\<close>

definition notify :: "bool \<Rightarrow> Status \<Rightarrow> World \<Rightarrow> World" where
  "notify statusCallback status w =
     (if statusCallback then w\<lparr>statuses := statuses w @ [status]\<rparr> else w)"

definition dateNow :: "Env \<Rightarrow> World \<Rightarrow> int \<times> World" where
  "dateNow E w = (now E (clock w), w\<lparr>clock := clock w + 1\<rparr>)"

subsection \<open>File system\<close>

definition existsSync :: "string \<Rightarrow> World \<Rightarrow> bool" where
  "existsSync path w \<longleftrightarrow> files w path \<noteq> None"

definition statSync :: "string \<Rightarrow> World \<Rightarrow> error + nat" where
  "statSync path w = (case files w path of None \<Rightarrow> Inl (ENOENT path) | Some n \<Rightarrow> Inr n)"

definition unlinkSync :: "string \<Rightarrow> World \<Rightarrow> error + World" where
  "unlinkSync path w =
     (case files w path of
        None \<Rightarrow> Inl (ENOENT path)
      | Some n \<Rightarrow> Inr (w\<lparr>files := (files w)(path := None)\<rparr>))"

text \<open>
  \<^verbatim>\<open>fs.createWriteStream(path)\<close> opens with flag \<^verbatim>\<open>w\<close>: the file is created or
  truncated. The call itself never throws: when the file cannot be opened, the stream
  emits an \<^verbatim>\<open>error\<close> event later, and the file system is as it was. The result says
  whether it will.
\<close>

definition createWriteStream :: "Env \<Rightarrow> string \<Rightarrow> World \<Rightarrow> error option \<times> World" where
  "createWriteStream E path w =
     (case openError E (opened w) of
        None \<Rightarrow> (None, w\<lparr>opened := opened w + 1, files := (files w)(path \<mapsto> 0)\<rparr>)
      | Some err \<Rightarrow> (Some err, w\<lparr>opened := opened w + 1\<rparr>))"

section \<open>Progress of a download\<close>

text \<open>Lines 118-126; \<^verbatim>\<open>toLocaleString\<close> is the locale's.\<close>

definition percent :: "Env \<Rightarrow> real option \<Rightarrow> string" where
  "percent E input = (case input of None \<Rightarrow> ''Unknown'' | Some p \<Rightarrow> toLocalePercent E p)"

text \<open>Lines 155-159, the \<^verbatim>\<open>onDownloadProgress\<close> option of the GET.\<close>

definition onDownloadProgress :: "Env \<Rightarrow> bool \<Rightarrow> real option \<Rightarrow> World \<Rightarrow> World" where
  "onDownloadProgress E statusCallback p w =
     notify statusCallback (Downloading (Some (percent E p))) w"

section \<open>HTTP with retries (axios 1.x, axios-retry 3.x)\<close>

text \<open>
  axios resolves a reply whose status passes the default \<^verbatim>\<open>validateStatus\<close>
  (\<open>200 \<le> status < 300\<close>) and rejects every other one with an error carrying the
  response; no reply at all is an error without a response. Of a resolved reply the
  program reads only the \<^verbatim>\<open>set-cookie\<close> header.
\<close>

definition settle :: "Reply \<Rightarrow> error + string list option" where
  "settle reply =
     (case reply of
        NoResponse \<Rightarrow> Inl (AxiosError None)
      | Response status setCookieHeader \<Rightarrow>
          if 200 \<le> status \<and> status < 300 then Inr setCookieHeader
          else Inl (AxiosError (Some status)))"

text \<open>
  Lines 78-80: \<^verbatim>\<open>error.response == null || error.response.status >= 400\<close>.
\<close>

definition retryCondition :: "error \<Rightarrow> bool" where
  "retryCondition err =
     (case err of
        AxiosError None \<Rightarrow> True
      | AxiosError (Some status) \<Rightarrow> status \<ge> 400
      | _ \<Rightarrow> False)"

text \<open>
  The options of lines 75-81 set no \<^verbatim>\<open>retryDelay\<close>, so the library's default
  \<^verbatim>\<open>noDelay\<close> applies: zero milliseconds before every retry.
\<close>

definition noDelay :: "nat \<Rightarrow> nat" where
  "noDelay retryNumber = 0"

text \<open>
  One request through the shared axios instance. Every attempt is put on the wire and
  logged. A request made with the option \<^verbatim>\<open>onDownloadProgress\<close> (\<open>listener\<close> is
  \<open>Some\<close> of whether there is a status callback) reports the progress events of every
  reply, also of one that is then rejected.
  When an attempt fails and the response interceptor of axios-retry is installed
  with option \<open>retries\<close>, it repeats the request while
  \<^verbatim>\<open>currentState.retryCount < retries && retryCondition(error)\<close>, counting the retries
  in the request's own state; \<open>retries\<close> is the number of retries after the first
  attempt. Otherwise the error is thrown to the caller.
\<close>

function request ::
  "Env \<Rightarrow> nat option \<Rightarrow> Method \<Rightarrow> string \<Rightarrow> bool option \<Rightarrow> nat \<Rightarrow> World
     \<Rightarrow> (error + string list option) \<times> World"
where
  "request E config method url listener retryCount w =
     (let w0 = w\<lparr>sent := sent w @
                 [\<lparr>reqMethod = method, reqUrl = url,
                   reqDelay = (if retryCount = 0 then 0 else noDelay retryCount)\<rparr>]\<rparr>;
          w1 = (case listener of
                  None \<Rightarrow> w0
                | Some statusCallback \<Rightarrow>
                    foldl (\<lambda>w' p. onDownloadProgress E statusCallback p w') w0
                      (replyProgress E (length (sent w)))) in
      case settle (wire E (length (sent w))) of
        Inr setCookieHeader \<Rightarrow> (Inr setCookieHeader, w1)
      | Inl err \<Rightarrow>
          (case config of
             None \<Rightarrow> (Inl err, w1)
           | Some retries \<Rightarrow>
               if retryCount < retries \<and> retryCondition err
               then request E config method url listener (retryCount + 1) w1
               else (Inl err, w1)))"
  by pat_completeness auto
termination
  by (relation "measure (\<lambda>(E, config, method, url, listener, retryCount, w). the config - retryCount)")
     auto

declare request.simps [simp del]

text \<open>
  \<^verbatim>\<open>postWithCookies(url, payload, cookies)\<close>. The request headers, the payload and
  the response text do not influence the control flow and are left out. Lines 75-81
  install the retry options on the shared instance at every call; lines 93-100 merge the
  cookies.
\<close>

definition postWithCookies :: "Env \<Rightarrow> string \<Rightarrow> ref \<Rightarrow> World \<Rightarrow> (error + ref) \<times> World" where
  "postWithCookies E url cookies w =
     (let w1 = w\<lparr>retryConfig := Some 3\<rparr> in
      case request E (retryConfig w1) POST url None 0 w1 of
        (Inl err, w2) \<Rightarrow> (Inl err, w2)
      | (Inr setCookieHeader, w2) \<Rightarrow>
          (let (updatedCookies, h) = mergeSetCookie setCookieHeader cookies (jars w2)
           in (Inr updatedCookies, w2\<lparr>jars := h\<rparr>)))"

text \<open>\<^verbatim>\<open>getCookies(authPayload, ipAddress)\<close> starts from a new, empty jar.\<close>

definition getCookies :: "Env \<Rightarrow> string \<Rightarrow> World \<Rightarrow> (error + ref) \<times> World" where
  "getCookies E ipAddress w =
     (let (cookies, h) = alloc Map.empty (jars w)
      in postWithCookies E (''https://'' @ ipAddress @ '':443/api/auth/login'') cookies
           (w\<lparr>jars := h\<rparr>))"

section \<open>Streaming download\<close>

text \<open>
  \<^verbatim>\<open>getBinaryDataWithCookies({url, cookies, filename, statusCallback})\<close>. The write
  stream is created at line 144, before the request, but the listener for its
  \<^verbatim>\<open>error\<close> event is attached only at line 181, after the \<^verbatim>\<open>await\<close> of line 148. A
  stream that fails to open emits the event during that \<^verbatim>\<open>await\<close>, when nothing listens:
  the process ends there, after the \<open>Waiting\<close> status, before any attempt reaches the wire
  and with no promise rejected.

  Once the response has arrived, the body is piped into the file while progress is
  reported, and the promise of lines 173-197 settles with the first of three events:
  \<^verbatim>\<open>finish\<close> of the writer, \<^verbatim>\<open>error\<close> of the writer, or \<^verbatim>\<open>error\<close> of the response
  stream. (A transfer on which none of them ever fires, and one on which two fire, are
  not modelled.)
\<close>

definition getBinaryDataWithCookies ::
  "Env \<Rightarrow> string \<Rightarrow> ref option \<Rightarrow> string \<Rightarrow> bool \<Rightarrow> World \<Rightarrow> (error + ref) \<times> World"
where
  "getBinaryDataWithCookies E url cookies filename statusCallback w =
     (let (cookies, w0) =
            (case cookies of
               Some c \<Rightarrow> (c, w)
             | None \<Rightarrow> (let (c, h) = alloc Map.empty (jars w) in (c, w\<lparr>jars := h\<rparr>)));
          (openFailure, w1) = createWriteStream E filename w0;
          w2 = notify statusCallback Waiting w1 in
      case openFailure of
        Some err \<Rightarrow> (Inl (Uncaught err), w2)
      | None \<Rightarrow>
         (case request E (retryConfig w2) GET url (Some statusCallback) 0 w2 of
            (Inl err, w3) \<Rightarrow> (Inl err, w3)
          | (Inr setCookieHeader, w3) \<Rightarrow>
              (let t = transfer E (transfers w3);
                   w4 = w3\<lparr>transfers := transfers w3 + 1\<rparr>;
                   (updatedCookies, h) = mergeSetCookie setCookieHeader cookies (jars w4);
                   w5 = w4\<lparr>jars := h\<rparr>;
                   w6 = foldl (\<lambda>w' p. onDownloadProgress E statusCallback p w') w5 (progress t);
                   w7 = w6\<lparr>files := (files w6)(filename \<mapsto> written t)\<rparr> in
               case ending t of
                 Finish \<Rightarrow>
                   (Inr updatedCookies, notify statusCallback (Downloading (Some ''100%'')) w7)
               | WriterError err \<Rightarrow>
                   (Inl err,
                    notify statusCallback
                      (Error err (''Error writing to the file '' @ filename)) w7)
               | ResponseError err \<Rightarrow>
                   (Inl err,
                    notify statusCallback
                      (Error err ''Error reading the response from the server'') w7))))"

section \<open>Remuxing\<close>

text \<open>
  \<^verbatim>\<open>convertToMkv(inputPath, outputPath)\<close> runs ffmpeg with \<^verbatim>\<open>-c copy\<close>. ffmpeg is an
  external process: whether it fails and what it leaves at the output path is given by
  the environment. It only reads its input.
\<close>

definition convertToMkv :: "Env \<Rightarrow> string \<Rightarrow> string \<Rightarrow> World \<Rightarrow> (error + bool) \<times> World" where
  "convertToMkv E inputPath outputPath w =
     (let run = ffmpeg E (conversions w);
          w1 = w\<lparr>conversions := conversions w + 1,
                 files := (case outputSize run of
                             None \<Rightarrow> files w
                           | Some n \<Rightarrow> (files w)(outputPath \<mapsto> n))\<rparr> in
      case failure run of
        None \<Rightarrow> (Inr True, w1)
      | Some err \<Rightarrow> (Inl err, w1\<lparr>console := console w1 @ [''Conversion error: '']\<rparr>))"

section \<open>The orchestrator: fetchVideo\<close>

text \<open>
  The cameras of lines 254 and the arguments of lines 252-260. The credentials only
  travel in the login payload and are left out; \<open>statusCallback\<close> says whether a
  callback was passed; the field \<^verbatim>\<open>id\<close> is \<open>ident\<close> and \<^verbatim>\<open>end\<close> is \<open>endDate\<close>.
\<close>

record Camera =
  ident :: string
  name :: "string option"

record Args =
  ipAddress :: string
  cameras :: "Camera list"
  start :: int
  endDate :: int
  mp4 :: "bool option"
  statusCallback :: bool

text \<open>
  \<^verbatim>\<open>OutputFileType\<close>; its fields \<^verbatim>\<open>start\<close>, \<^verbatim>\<open>end\<close> and \<^verbatim>\<open>filename\<close> are
  \<open>rangeStart\<close>, \<open>rangeEnd\<close> and \<open>outFilename\<close>.
\<close>

record OutputFileType =
  cameraName :: string
  rangeStart :: int
  rangeEnd :: int
  outFilename :: string

text \<open>\<^verbatim>\<open>if (args.mp4 === undefined) args.mp4 = true\<close>\<close>

definition mp4Flag :: "Args \<Rightarrow> bool" where
  "mp4Flag args = (case mp4 args of None \<Rightarrow> True | Some b \<Rightarrow> b)"

text \<open>\<^verbatim>\<open>camera.name ?? camera.id\<close>\<close>

definition cameraLabel :: "Camera \<Rightarrow> string" where
  "cameraLabel camera = (case name camera of None \<Rightarrow> ident camera | Some n \<Rightarrow> n)"

text \<open>
  \<^verbatim>\<open>formatDate(date)\<close> is \<^verbatim>\<open>format(date, 'yyyy-MM-dd hh:mm:ss aa')\<close> in the time
  zone of the process.
\<close>

definition formatDate :: "Env \<Rightarrow> int \<Rightarrow> string" where
  "formatDate E date = format E date"

text \<open>Lines 282-286.\<close>

definition exportUrl :: "string \<Rightarrow> Camera \<Rightarrow> int \<Rightarrow> int \<Rightarrow> string" where
  "exportUrl ip camera currentStart currentEnd =
     ''https://'' @ ip @ '':443/proxy/protect/api/video/export?camera='' @ ident camera
       @ ''&start='' @ showInt currentStart @ ''&end='' @ showInt currentEnd"

text \<open>Lines 288-293.\<close>

definition baseFilename :: "Env \<Rightarrow> Camera \<Rightarrow> int \<Rightarrow> int \<Rightarrow> string" where
  "baseFilename E camera currentStart currentEnd =
     formatDate E currentStart @ ''_'' @ formatDate E currentEnd @ ''_'' @ cameraLabel camera"

text \<open>
  A step either throws, which leaves an error and the world as it is at that moment, or
  returns.
\<close>

type_synonym 'a thrown = "(error \<times> World) + 'a"

text \<open>
  Lines 299-308: what is done about a file already at the destination. The result
  \<open>True\<close> is the \<^verbatim>\<open>continue\<close> of line 306.
\<close>

definition checkExisting :: "string \<Rightarrow> World \<Rightarrow> (bool \<times> World) thrown" where
  "checkExisting mp4Filename w =
     (if existsSync mp4Filename w then
        (case statSync mp4Filename w of
           Inl err \<Rightarrow> Inl (err, w)
         | Inr n \<Rightarrow>
             if n = 0 then
               (case unlinkSync mp4Filename w of
                  Inl err \<Rightarrow> Inl (err, w)
                | Inr w' \<Rightarrow> Inr (False, w'))
             else
               Inr (True,
                    w\<lparr>console := console w @
                      [mp4Filename @ '' already exists and is not empty, refusing to overwrite it'']\<rparr>))
      else Inr (False, w))"

text \<open>Lines 310-340: log in, download, measure, report the throughput.\<close>

definition downloadChunk :: "Env \<Rightarrow> Args \<Rightarrow> string \<Rightarrow> string \<Rightarrow> World \<Rightarrow> World thrown" where
  "downloadChunk E args url mp4Filename w =
     (let (downloadStart, w1) = dateNow E w in
      case getCookies E (ipAddress args) w1 of
        (Inl err, w2) \<Rightarrow> Inl (err, w2)
      | (Inr cookies, w2) \<Rightarrow>
          (case getBinaryDataWithCookies E url (Some cookies) mp4Filename (statusCallback args) w2 of
             (Inl err, w3) \<Rightarrow> Inl (err, w3)
           | (Inr updated, w3) \<Rightarrow>
               (let (downloadEnd, w4) = dateNow E w3;
                    diffInSeconds = differenceInSeconds downloadEnd downloadStart in
                case statSync mp4Filename w4 of
                  Inl err \<Rightarrow> Inl (err, w4)
                | Inr bytes \<Rightarrow>
                    Inr (notify (statusCallback args)
                           (DownloadThroughput (throughputString bytes diffInSeconds)) w4))))"

text \<open>Lines 342-349: remux and delete the download, unless MP4 was asked for.\<close>

definition convertChunk :: "Env \<Rightarrow> Args \<Rightarrow> string \<Rightarrow> string \<Rightarrow> World \<Rightarrow> World thrown" where
  "convertChunk E args mp4Filename mkvFilename w =
     (if \<not> mp4Flag args then
        (let w1 = notify (statusCallback args) Converting w in
         case convertToMkv E mp4Filename mkvFilename w1 of
           (Inl err, w2) \<Rightarrow> Inl (err, w2)
         | (Inr done, w2) \<Rightarrow>
             (case unlinkSync mp4Filename w2 of
                Inl err \<Rightarrow> Inl (err, w2)
              | Inr w3 \<Rightarrow> Inr w3))
      else Inr w)"

text \<open>
  The variables of the loops that change: \<^verbatim>\<open>currentStart\<close>, \<^verbatim>\<open>outputFiles\<close> and
  the world.
\<close>

type_synonym Job = "int \<times> OutputFileType list \<times> World"

text \<open>
  Lines 282-356, the body of \<^verbatim>\<open>for (const camera of args.cameras)\<close>. Line 297 advances
  \<^verbatim>\<open>currentStart\<close> here, after the URL and the file names are built.
\<close>

definition cameraBody :: "Env \<Rightarrow> Args \<Rightarrow> int \<Rightarrow> Camera \<Rightarrow> Job \<Rightarrow> Job thrown" where
  "cameraBody E args currentEnd camera job =
     (let currentStart = fst job;
          outputFiles = fst (snd job);
          w = snd (snd job);
          url = exportUrl (ipAddress args) camera currentStart currentEnd;
          base = baseFilename E camera currentStart currentEnd;
          mp4Filename = base @ ''.mp4'';
          mkvFilename = base @ ''.mkv'';
          currentStart' = add currentStart maxMinuteDiff in
      (case checkExisting mp4Filename w of
         Inl x \<Rightarrow> Inl x
       | Inr (True, w1) \<Rightarrow> Inr (currentStart', outputFiles, w1)
       | Inr (False, w1) \<Rightarrow>
           (case downloadChunk E args url mp4Filename w1 of
              Inl x \<Rightarrow> Inl x
            | Inr w2 \<Rightarrow>
                (case convertChunk E args mp4Filename mkvFilename w2 of
                   Inl x \<Rightarrow> Inl x
                 | Inr w3 \<Rightarrow>
                     Inr (currentStart',
                          outputFiles @
                            [\<lparr>cameraName = cameraLabel camera, rangeStart = start args,
                              rangeEnd = endDate args,
                              outFilename = (if mp4Flag args then mp4Filename else mkvFilename)\<rparr>],
                          w3)))))"

fun forCameras :: "Env \<Rightarrow> Args \<Rightarrow> int \<Rightarrow> Camera list \<Rightarrow> Job \<Rightarrow> Job thrown" where
  "forCameras E args currentEnd [] job = Inr job"
| "forCameras E args currentEnd (camera # rest) job =
     (case cameraBody E args currentEnd camera job of
        Inl x \<Rightarrow> Inl x
      | Inr job' \<Rightarrow> forCameras E args currentEnd rest job')"

text \<open>
  Lines 272-279: the end of the window that starts at \<^verbatim>\<open>currentStart\<close>, computed once
  per round of the \<^verbatim>\<open>while\<close> loop.
\<close>

definition currentEnd :: "Args \<Rightarrow> int \<Rightarrow> int" where
  "currentEnd args currentStart =
     (let diffInMinutes = differenceInMinutes (endDate args) currentStart in
      if diffInMinutes > maxMinuteDiff then add currentStart maxMinuteDiff else endDate args)"

text \<open>
  Lines 271-358, \<^verbatim>\<open>while (isBefore(currentStart, args.end))\<close>. Nothing in the loop
  bounds the number of rounds, so the result is optional: \<open>None\<close> is a loop that never
  ends.
\<close>

partial_function (option) whileWindows :: "Env \<Rightarrow> Args \<Rightarrow> Job \<Rightarrow> Job thrown option" where
  "whileWindows E args job =
     (if isBefore (fst job) (endDate args) then
        (case forCameras E args (currentEnd args (fst job)) (cameras args) job of
           Inl x \<Rightarrow> Some (Inl x)
         | Inr job' \<Rightarrow> whileWindows E args job')
      else Some (Inr job))"

declare whileWindows.simps [code]

definition fetchVideo :: "Env \<Rightarrow> Args \<Rightarrow> World \<Rightarrow> (OutputFileType list \<times> World) thrown option" where
  "fetchVideo E args w =
     (case whileWindows E args (start args, [], w) of
        None \<Rightarrow> None
      | Some (Inl x) \<Rightarrow> Some (Inl x)
      | Some (Inr (currentStart, outputFiles, w')) \<Rightarrow> Some (Inr (outputFiles, w')))"

text \<open>
  The states in which a round of the \<^verbatim>\<open>while\<close> loop can start, from the state \<open>job0\<close>
  in which the loop is entered: \<open>job0\<close> itself, and the state after a round that started
  in such a state with the loop condition true and in which no camera threw.
\<close>

inductive roundStart :: "Env \<Rightarrow> Args \<Rightarrow> Job \<Rightarrow> Job \<Rightarrow> bool" for E args job0 where
  entry: "roundStart E args job0 job0"
| round: "roundStart E args job0 job \<Longrightarrow> isBefore (fst job) (endDate args) \<Longrightarrow>
     forCameras E args (currentEnd args (fst job)) (cameras args) job = Inr job' \<Longrightarrow>
     roundStart E args job0 job'"

section \<open>Sample inputs\<close>

text \<open>
  An appliance that answers every request with status 200 and no cookies, write streams
  that open, transfers of 1000 bytes that finish, ffmpeg runs that succeed, and a clock that advances two seconds
  between readings; dates are printed as their epoch milliseconds.
\<close>

definition okEnv :: Env where
  "okEnv =
     \<lparr>format = showInt, toLocalePercent = (\<lambda>p. ''50.0%''), wire = (\<lambda>n. Response 200 None),
      replyProgress = (\<lambda>n. []), openError = (\<lambda>n. None),
      transfer = (\<lambda>n. \<lparr>progress = [], written = 1000, ending = Finish\<rparr>),
      ffmpeg = (\<lambda>n. \<lparr>failure = None, outputSize = Some 1000\<rparr>),
      now = (\<lambda>n. int n * 2000)\<rparr>"

text \<open>An empty working directory, before anything has happened.\<close>

definition emptyWorld :: World where
  "emptyWorld =
     \<lparr>files = Map.empty, jars = [], retryConfig = None, sent = [], statuses = [], console = [],
      opened = 0, transfers = 0, conversions = 0, clock = 0\<rparr>"

definition cameraA :: Camera where
  "cameraA = \<lparr>ident = ''A'', name = None\<rparr>"

definition cameraB :: Camera where
  "cameraB = \<lparr>ident = ''B'', name = None\<rparr>"

text \<open>An appliance that cannot be reached, and one whose first reply is a 503.\<close>

definition offlineEnv :: Env where
  "offlineEnv = okEnv\<lparr>wire := (\<lambda>n. NoResponse)\<rparr>"

definition flakyEnv :: Env where
  "flakyEnv = okEnv\<lparr>wire := (\<lambda>n. if n = 0 then Response 503 None else Response 200 None)\<rparr>"

text \<open>A disk that fails while the body is written, and a connection that drops.\<close>

definition diskFullEnv :: Env where
  "diskFullEnv =
     okEnv\<lparr>transfer := (\<lambda>n. \<lparr>progress = [Some (1 / 4)], written = 250,
                                ending = WriterError (StreamError ''ENOSPC'')\<rparr>)\<rparr>"

definition droppedEnv :: Env where
  "droppedEnv =
     okEnv\<lparr>transfer := (\<lambda>n. \<lparr>progress = [None], written = 250,
                                ending = ResponseError (StreamError ''ECONNRESET'')\<rparr>)\<rparr>"

text \<open>A destination that cannot be opened for writing.\<close>

definition unwritableEnv :: Env where
  "unwritableEnv = okEnv\<lparr>openError := (\<lambda>n. Some (StreamError ''EACCES''))\<rparr>"

text \<open>An ffmpeg that fails and leaves a partial output.\<close>

definition brokenFfmpegEnv :: Env where
  "brokenFfmpegEnv =
     okEnv\<lparr>ffmpeg := (\<lambda>n. \<lparr>failure = Some (FfmpegError ''exit 1''), outputSize = Some 10\<rparr>)\<rparr>"

text \<open>A clock that advances half a second between readings.\<close>

definition quickEnv :: Env where
  "quickEnv = okEnv\<lparr>now := (\<lambda>n. int n * 500)\<rparr>"

text \<open>Jobs: two cameras over two hours; one camera over an hour and thirty seconds; one
  camera over an hour, once as MP4 and once converted.\<close>

definition twoCameraArgs :: Args where
  "twoCameraArgs =
     \<lparr>ipAddress = ''nvr'', cameras = [cameraA, cameraB], start = 0, endDate = 7200000,
      mp4 = None, statusCallback = True\<rparr>"

definition oddRangeArgs :: Args where
  "oddRangeArgs =
     \<lparr>ipAddress = ''nvr'', cameras = [cameraA], start = 0, endDate = 3630000,
      mp4 = None, statusCallback = True\<rparr>"

definition hourArgs :: Args where
  "hourArgs =
     \<lparr>ipAddress = ''nvr'', cameras = [cameraA], start = 0, endDate = 3600000,
      mp4 = None, statusCallback = True\<rparr>"

definition mkvArgs :: Args where
  "mkvArgs = hourArgs\<lparr>mp4 := Some False\<rparr>"

section \<open>Cookie merging\<close>

lemma split_not_Nil: "split c s \<noteq> []"
  by (induction s) auto

lemma split_no_sep: "c \<notin> set s \<Longrightarrow> split c s = [s]"
  by (induction s) auto

lemma length_split: "length (split c s) = Suc (length (filter (\<lambda>x. x = c) s))"
  by (induction s) (auto simp: split_not_Nil)

lemma split_sep: "c \<in> set s \<Longrightarrow> length (split c s) \<noteq> 1"
  by (simp add: length_split filter_empty_conv)

lemma split_append: "c \<notin> set k \<Longrightarrow> split c (k @ c # rest) = k # split c rest"
  by (induction k) auto

lemma length_safeUpdateCookie: "length (safeUpdateCookie cookie r h) = length h"
  by (simp add: safeUpdateCookie_def Let_def split: list.splits)

lemma safeUpdateCookie_other: "r' \<noteq> r \<Longrightarrow> safeUpdateCookie cookie r h ! r' = h ! r'"
  by (simp add: safeUpdateCookie_def Let_def split: list.splits)

lemma safeUpdateCookie_dom: "r < length h \<Longrightarrow> dom (h ! r) \<subseteq> dom (safeUpdateCookie cookie r h ! r)"
  by (auto simp add: safeUpdateCookie_def Let_def split: list.splits)

lemma safeUpdateCookie_attr: "CHR '';'' \<in> set cookie \<Longrightarrow> safeUpdateCookie cookie r h = h"
  using split_sep[of "CHR '';''" cookie] by (simp add: safeUpdateCookie_def Let_def)

lemma safeUpdateCookie_pair:
  assumes "CHR '';'' \<notin> set (k @ CHR ''='' # v)" "CHR ''='' \<notin> set k" "CHR ''='' \<notin> set v" "r < length h"
    and "trim k \<noteq> ''__proto__''"
  shows "safeUpdateCookie (k @ CHR ''='' # v) r h = h[r := (h ! r)(trim k \<mapsto> trim v)]"
  using assms split_no_sep[of "CHR '';''" "k @ CHR ''='' # v"]
  by (simp add: safeUpdateCookie_def Let_def split_append split_no_sep)

lemma fold_len: "length (foldl (\<lambda>h' cookie. safeUpdateCookie cookie r h') h cs) = length h"
  by (induction cs arbitrary: h) (auto simp: length_safeUpdateCookie)

lemma fold_other: "r' \<noteq> r \<Longrightarrow> foldl (\<lambda>h' cookie. safeUpdateCookie cookie r h') h cs ! r' = h ! r'"
  by (induction cs arbitrary: h) (auto simp: safeUpdateCookie_other)

lemma fold_dom: "r < length h \<Longrightarrow> dom (h ! r) \<subseteq> dom (foldl (\<lambda>h' cookie. safeUpdateCookie cookie r h') h cs ! r)"
proof (induction cs arbitrary: h)
  case Nil
  then show ?case by simp
next
  case (Cons c cs)
  have "dom (h ! r) \<subseteq> dom (safeUpdateCookie c r h ! r)"
    using Cons.prems by (rule safeUpdateCookie_dom)
  moreover have "dom (safeUpdateCookie c r h ! r) \<subseteq> dom (foldl (\<lambda>h' cookie. safeUpdateCookie cookie r h') (safeUpdateCookie c r h) cs ! r)"
    using Cons.prems by (intro Cons.IH) (simp add: length_safeUpdateCookie)
  ultimately show ?case by auto
qed



text \<open>
  Claim C4. Merging the cookies of a response is additive, and a rejected header changes
  nothing. For a jar \<open>cookies\<close> of the store: without a \<^verbatim>\<open>set-cookie\<close> header the
  merged jar has the entries of the caller's jar; headers that all carry \<open>;\<close>-separated
  attributes, such as \<^verbatim>\<open>a=1; Path=/\<close>, leave them as they are; \<^verbatim>\<open>a=1\<close> maps \<open>a\<close>
  to \<open>1\<close>; whatever the header, no key of the caller's jar is lost; and the merged jar is
  a new object: every object that was in the store before, the caller's jar among them, is
  as it was.
\<close>

theorem cookie_merge_additive:
  assumes "cookies < length h"
  shows "snd (mergeSetCookie None cookies h) ! fst (mergeSetCookie None cookies h) = h ! cookies
    \<and> ((\<forall>c\<in>set cs. CHR '';'' \<in> set c) \<longrightarrow>
         snd (mergeSetCookie (Some cs) cookies h) ! fst (mergeSetCookie (Some cs) cookies h) = h ! cookies)
    \<and> snd (mergeSetCookie (Some [''a=1; Path=/'']) cookies h) !
         fst (mergeSetCookie (Some [''a=1; Path=/'']) cookies h) = h ! cookies
    \<and> snd (mergeSetCookie (Some [''a=1'']) cookies h) !
         fst (mergeSetCookie (Some [''a=1'']) cookies h) = (h ! cookies)(''a'' \<mapsto> ''1'')
    \<and> dom (h ! cookies) \<subseteq> dom (snd (mergeSetCookie hdr cookies h) ! fst (mergeSetCookie hdr cookies h))
    \<and> fst (mergeSetCookie hdr cookies h) \<noteq> cookies
    \<and> take (length h) (snd (mergeSetCookie hdr cookies h)) = h"
proof -
  let ?F = "\<lambda>cs. foldl (\<lambda>h' cookie. safeUpdateCookie cookie (length h) h') (h @ [h ! cookies]) cs"
  have M: "mergeSetCookie hdr' cookies h =
     (length h, case hdr' of None \<Rightarrow> h @ [h ! cookies] | Some cs \<Rightarrow> ?F cs)" for hdr'
    by (simp add: mergeSetCookie_def alloc_def split: option.splits)
  have rej: "(\<forall>c\<in>set cs. CHR '';'' \<in> set c) \<Longrightarrow> ?F cs = h @ [h ! cookies]" for cs
    by (induction cs) (simp_all add: safeUpdateCookie_attr)
  have p1: "snd (mergeSetCookie None cookies h) ! fst (mergeSetCookie None cookies h) = h ! cookies"
    by (simp add: M)
  have p2: "(\<forall>c\<in>set cs. CHR '';'' \<in> set c) \<longrightarrow>
         snd (mergeSetCookie (Some cs) cookies h) ! fst (mergeSetCookie (Some cs) cookies h) = h ! cookies"
    by (simp add: M rej)
  have p3: "snd (mergeSetCookie (Some [''a=1; Path=/'']) cookies h) !
         fst (mergeSetCookie (Some [''a=1; Path=/'']) cookies h) = h ! cookies"
    by (simp add: M safeUpdateCookie_attr)
  have "safeUpdateCookie (''a'' @ CHR ''='' # ''1'') (length h) (h @ [h ! cookies])
        = (h @ [h ! cookies])[length h := ((h @ [h ! cookies]) ! length h)(trim ''a'' \<mapsto> trim ''1'')]"
    by (rule safeUpdateCookie_pair) (simp_all add: trim_def isWhiteSpace_def)
  then have p4: "snd (mergeSetCookie (Some [''a=1'']) cookies h) !
         fst (mergeSetCookie (Some [''a=1'']) cookies h) = (h ! cookies)(''a'' \<mapsto> ''1'')"
    by (simp add: M trim_def isWhiteSpace_def)
  have len: "length (?F cs) = Suc (length h)" for cs
    by (simp add: fold_len)
  have "dom ((h @ [h ! cookies]) ! length h) \<subseteq> dom (?F cs ! length h)" for cs
    by (rule fold_dom) simp
  then have p5: "dom (h ! cookies) \<subseteq> dom (snd (mergeSetCookie hdr cookies h) ! fst (mergeSetCookie hdr cookies h))"
    by (cases hdr) (simp_all add: M)
  have p6: "fst (mergeSetCookie hdr cookies h) \<noteq> cookies"
    using assms by (simp add: M)
  have "take (length h) (?F cs) = h" for cs
  proof (rule nth_equalityI)
    show "length (take (length h) (?F cs)) = length h" by (simp add: len)
  next
    fix i assume "i < length (take (length h) (?F cs))"
    then have i: "i < length h" by simp
    then have "?F cs ! i = (h @ [h ! cookies]) ! i"
      by (intro fold_other) simp
    with i show "take (length h) (?F cs) ! i = h ! i" by (simp add: nth_append)
  qed
  then have p7: "take (length h) (snd (mergeSetCookie hdr cookies h)) = h"
    by (cases hdr) (simp_all add: M)
  from p1 p2 p3 p4 p5 p6 p7 show ?thesis by blast
qed

theorem cookie_merge_additive_witness:
  "(0::nat) < length [[''sid'' \<mapsto> ''x'']]
   \<and> snd (mergeSetCookie (Some [''b=2; HttpOnly'']) 0 [[''sid'' \<mapsto> ''x'']]) !
       fst (mergeSetCookie (Some [''b=2; HttpOnly'']) 0 [[''sid'' \<mapsto> ''x'']]) = [''sid'' \<mapsto> ''x'']
   \<and> snd (mergeSetCookie (Some [''a=1'']) 0 [[''sid'' \<mapsto> ''x'']]) !
       fst (mergeSetCookie (Some [''a=1'']) 0 [[''sid'' \<mapsto> ''x'']]) = [''sid'' \<mapsto> ''x'', ''a'' \<mapsto> ''1'']
   \<and> take 1 (snd (mergeSetCookie (Some [''a=1'']) 0 [[''sid'' \<mapsto> ''x'']])) = [[''sid'' \<mapsto> ''x'']]"
  using cookie_merge_additive [of 0 "[[''sid'' \<mapsto> ''x'']]" "[''b=2; HttpOnly'']" "Some [''a=1'']"]
  by simp





section \<open>Throughput formatting\<close>

lemma nearest_floor: "\<bar>of_int \<lfloor>x + 1 / 2\<rfloor> - x\<bar> \<le> 1 / (2::real)"
  by linarith

lemma throughput_finite:
  assumes "0 < secs"
  shows "jsDivide (Num (of_nat bytes)) (Num (of_int secs)) = Num (of_nat bytes / of_int secs)"
  using assms by (simp add: jsDivide_def isZero_def isInfinite_def isNegative_def finiteValue_def)

lemma toString_rounded_nonneg:
  assumes "0 \<le> q"
  shows "toString (mathRound (Num q)) = showInt \<lfloor>q + 1 / 2\<rfloor>"
proof -
  have "\<not> q < 0" using assms by simp
  then show ?thesis by (simp add: mathRound_def toString_def)
qed

lemma throughput_megabytes:
  assumes "0 < secs" and big: "real bytes / real_of_int secs > 1000000"
  shows "throughputString bytes (Num (of_int secs)) =
           showInt \<lfloor>real bytes / real_of_int secs / 1000000 + 1 / 2\<rfloor> @ '' MB''"
proof -
  let ?q = "real bytes / real_of_int secs"
  have tp: "jsDivide (Num (of_nat bytes)) (Num (of_int secs)) = Num ?q"
    using assms(1) by (rule throughput_finite)
  from big have d: "jsDivide (Num ?q) (Num 1000000) = Num (?q / 1000000)"
    by (simp add: jsDivide_def isZero_def isInfinite_def isNegative_def finiteValue_def)
  have "0 \<le> ?q / 1000000" using assms(1) by simp
  then have "toString (mathRound (Num (?q / 1000000))) = showInt \<lfloor>?q / 1000000 + 1 / 2\<rfloor>"
    by (rule toString_rounded_nonneg)
  with big show ?thesis
    by (simp only: throughputString_def tp Let_def jsGreater_def number.case d if_True)
qed

lemma throughput_bytes:
  assumes "0 < secs" and small: "real bytes / real_of_int secs \<le> 1000000"
  shows "throughputString bytes (Num (of_int secs)) =
           showInt \<lfloor>real bytes / real_of_int secs + 1 / 2\<rfloor> @ '' B''"
proof -
  let ?q = "real bytes / real_of_int secs"
  have tp: "jsDivide (Num (of_nat bytes)) (Num (of_int secs)) = Num ?q"
    using assms(1) by (rule throughput_finite)
  from small have ng: "\<not> ?q > 1000000" by simp
  have "0 \<le> ?q" using assms(1) by simp
  then have "toString (mathRound (Num ?q)) = showInt \<lfloor>?q + 1 / 2\<rfloor>"
    by (rule toString_rounded_nonneg)
  with ng show ?thesis
    by (simp only: throughputString_def tp Let_def jsGreater_def number.case if_False)
qed

lemma differenceInSeconds_whole:
  assumes "0 \<le> downloadEnd - downloadStart"
  shows "differenceInSeconds downloadEnd downloadStart =
           Num (of_int ((downloadEnd - downloadStart) div 1000))"
  using assms by (simp add: differenceInSeconds_def trunc_def)

lemmas throughput_eval =
  throughputString_def differenceInSeconds_def trunc_def jsDivide_def isZero_def isInfinite_def
  isNegative_def finiteValue_def jsGreater_def mathRound_def toString_def showInt_def digits.simps

text \<open>
  For a chunk whose download took at least a second the throughput is a number, and it is
  printed as a nearest integer of the megabytes or of the bytes per second.
\<close>

lemma throughput_formatting_whole_seconds:
  assumes "1000 \<le> downloadEnd - downloadStart"
  shows "(real bytes / real_of_int ((downloadEnd - downloadStart) div 1000) > 1000000 \<longrightarrow>
          (\<exists>m. throughputString bytes (differenceInSeconds downloadEnd downloadStart)
                 = showInt m @ '' MB''
             \<and> \<bar>real_of_int m
                  - real bytes / real_of_int ((downloadEnd - downloadStart) div 1000) / 1000000\<bar>
                 \<le> 1 / 2))
       \<and> (real bytes / real_of_int ((downloadEnd - downloadStart) div 1000) \<le> 1000000 \<longrightarrow>
          (\<exists>m. throughputString bytes (differenceInSeconds downloadEnd downloadStart)
                 = showInt m @ '' B''
             \<and> \<bar>real_of_int m
                  - real bytes / real_of_int ((downloadEnd - downloadStart) div 1000)\<bar> \<le> 1 / 2))
       \<and> throughputString 1000000 (differenceInSeconds 1000 0) = ''1000000 B''
       \<and> throughputString 1000001 (differenceInSeconds 1000 0) = ''1 MB''"
proof -
  let ?secs = "(downloadEnd - downloadStart) div 1000"
  let ?q = "real bytes / real_of_int ?secs"
  have pos: "0 < ?secs" using assms by simp
  have ds: "differenceInSeconds downloadEnd downloadStart = Num (of_int ?secs)"
    using assms by (intro differenceInSeconds_whole) simp
  have mb: "?q > 1000000 \<longrightarrow>
          (\<exists>m. throughputString bytes (differenceInSeconds downloadEnd downloadStart)
                 = showInt m @ '' MB''
             \<and> \<bar>real_of_int m - ?q / 1000000\<bar> \<le> 1 / 2)"
  proof
    assume "?q > 1000000"
    with pos have "throughputString bytes (Num (of_int ?secs)) =
           showInt \<lfloor>?q / 1000000 + 1 / 2\<rfloor> @ '' MB''"
      by (rule throughput_megabytes)
    then show "\<exists>m. throughputString bytes (differenceInSeconds downloadEnd downloadStart)
                 = showInt m @ '' MB''
             \<and> \<bar>real_of_int m - ?q / 1000000\<bar> \<le> 1 / 2"
      unfolding ds using nearest_floor [of "?q / 1000000"] by blast
  qed
  have b: "?q \<le> 1000000 \<longrightarrow>
          (\<exists>m. throughputString bytes (differenceInSeconds downloadEnd downloadStart)
                 = showInt m @ '' B''
             \<and> \<bar>real_of_int m - ?q\<bar> \<le> 1 / 2)"
  proof
    assume "?q \<le> 1000000"
    with pos have "throughputString bytes (Num (of_int ?secs)) = showInt \<lfloor>?q + 1 / 2\<rfloor> @ '' B''"
      by (rule throughput_bytes)
    then show "\<exists>m. throughputString bytes (differenceInSeconds downloadEnd downloadStart)
                 = showInt m @ '' B''
             \<and> \<bar>real_of_int m - ?q\<bar> \<le> 1 / 2"
      unfolding ds using nearest_floor [of ?q] by blast
  qed
  have e1: "throughputString 1000000 (differenceInSeconds 1000 0) = ''1000000 B''"
    by (simp add: throughput_eval)
  have e2: "throughputString 1000001 (differenceInSeconds 1000 0) = ''1 MB''"
    by (simp add: throughput_eval)
  from mb b e1 e2 show ?thesis by blast
qed

lemma digits_chars: "set (digits n) \<subseteq> set ''0123456789''"
proof (induction n rule: digits.induct)
  case (1 n)
  have m: "''0123456789'' ! (n mod 10) \<in> set ''0123456789''"
    by (rule nth_mem) simp
  show ?case
  proof (cases "n < 10")
    case True
    then have "''0123456789'' ! n \<in> set ''0123456789''"
      by (intro nth_mem) simp
    with True show ?thesis by (subst digits.simps) simp
  next
    case False
    with 1 have "set (digits (n div 10)) \<subseteq> set ''0123456789''" by simp
    with False m show ?thesis by (subst digits.simps) simp
  qed
qed

lemma digits_not_letter:
  assumes "c \<notin> set ''0123456789''"
  shows "c \<notin> set (digits n)"
  using digits_chars [of n] assms by blast

lemma showInt_not_Infinity: "showInt m \<noteq> ''Infinity''"
proof
  assume a: "showInt m = ''Infinity''"
  show False
  proof (cases "m < 0")
    case True
    with a have "''-'' @ digits (nat (- m)) = ''Infinity''" by (simp only: showInt_def if_True)
    then show False by simp
  next
    case False
    with a have "digits (nat m) = ''Infinity''" by (simp only: showInt_def if_False)
    then have "CHR ''I'' \<in> set (digits (nat m))" by simp
    moreover have "CHR ''I'' \<notin> set (digits (nat m))"
      by (rule digits_not_letter) simp
    ultimately show False by simp
  qed
qed

lemma showInt_not_NaN: "showInt m \<noteq> ''NaN''"
proof
  assume a: "showInt m = ''NaN''"
  show False
  proof (cases "m < 0")
    case True
    with a have "''-'' @ digits (nat (- m)) = ''NaN''" by (simp only: showInt_def if_True)
    then show False by simp
  next
    case False
    with a have "digits (nat m) = ''NaN''" by (simp only: showInt_def if_False)
    then have "CHR ''N'' \<in> set (digits (nat m))" by simp
    moreover have "CHR ''N'' \<notin> set (digits (nat m))"
      by (rule digits_not_letter) simp
    ultimately show False by simp
  qed
qed

text \<open>
  Claim C8. A chunk of 1000 bytes whose download took half a second has no throughput
  that is a number: the elapsed whole seconds are zero and the division yields infinity.
  The status reads \<^verbatim>\<open>Infinity MB\<close>, which is not the decimal form of any integer
  followed by \<open>MB\<close>; for an empty chunk it reads \<^verbatim>\<open>NaN B\<close>, which is not the decimal
  form of any integer followed by \<open>B\<close>.
\<close>

theorem subsecond_throughput_is_no_count:
  "throughputString 1000 (differenceInSeconds 500 0) = ''Infinity MB''
   \<and> (\<forall>m. throughputString 1000 (differenceInSeconds 500 0) \<noteq> showInt m @ '' MB'')
   \<and> throughputString 0 (differenceInSeconds 500 0) = ''NaN B''
   \<and> (\<forall>m. throughputString 0 (differenceInSeconds 500 0) \<noteq> showInt m @ '' B'')"
proof -
  have e1: "throughputString 1000 (differenceInSeconds 500 0) = ''Infinity'' @ '' MB''"
    by (simp add: throughputString_def differenceInSeconds_def trunc_def jsDivide_def isZero_def
        isInfinite_def isNegative_def finiteValue_def jsGreater_def mathRound_def toString_def)
  have e2: "throughputString 0 (differenceInSeconds 500 0) = ''NaN'' @ '' B''"
    by (simp add: throughputString_def differenceInSeconds_def trunc_def jsDivide_def isZero_def
        isInfinite_def isNegative_def finiteValue_def jsGreater_def mathRound_def toString_def)
  have n1: "\<forall>m. throughputString 1000 (differenceInSeconds 500 0) \<noteq> showInt m @ '' MB''"
    unfolding e1 by (simp only: append_same_eq) (simp add: showInt_not_Infinity [symmetric])
  have n2: "\<forall>m. throughputString 0 (differenceInSeconds 500 0) \<noteq> showInt m @ '' B''"
    unfolding e2 by (simp only: append_same_eq) (simp add: showInt_not_NaN [symmetric])
  from e1 e2 n1 n2 show ?thesis by simp
qed

section \<open>Retries\<close>

lemma fold_progress:
  "foldl (\<lambda>w' p. onDownloadProgress E cb p w') w ps =
     w\<lparr>statuses := statuses w @ (if cb then map (\<lambda>p. Downloading (Some (percent E p))) ps else [])\<rparr>"
  by (induction ps arbitrary: w) (simp_all add: onDownloadProgress_def notify_def)

lemma attempt_reported:
  "\<exists>ts. (case l of None \<Rightarrow> w0
          | Some cb \<Rightarrow> foldl (\<lambda>w' p. onDownloadProgress E cb p w') w0 ps) = w0\<lparr>statuses := ts\<rparr>"
proof (cases l)
  case None
  then show ?thesis by (intro exI [of _ "statuses w0"]) simp
next
  case (Some cb)
  then show ?thesis
    by (intro exI [of _ "statuses w0 @ (if cb then map (\<lambda>p. Downloading (Some (percent E p))) ps else [])"])
       (simp add: fold_progress)
qed

lemma request_step:
  "\<exists>ts. request E config m u l c w =
     (case settle (wire E (length (sent w))) of
        Inr setCookieHeader \<Rightarrow>
          (Inr setCookieHeader,
           w\<lparr>sent := sent w @ [\<lparr>reqMethod = m, reqUrl = u, reqDelay = 0\<rparr>], statuses := ts\<rparr>)
      | Inl err \<Rightarrow>
          (if (\<exists>retries. config = Some retries \<and> c < retries) \<and> retryCondition err
           then request E config m u l (c + 1)
                  (w\<lparr>sent := sent w @ [\<lparr>reqMethod = m, reqUrl = u, reqDelay = 0\<rparr>], statuses := ts\<rparr>)
           else (Inl err,
                 w\<lparr>sent := sent w @ [\<lparr>reqMethod = m, reqUrl = u, reqDelay = 0\<rparr>], statuses := ts\<rparr>)))"
proof -
  let ?w0 = "w\<lparr>sent := sent w @ [\<lparr>reqMethod = m, reqUrl = u, reqDelay = 0\<rparr>]\<rparr>"
  from attempt_reported [where l = l and ?w0.0 = ?w0 and E = E and ps = "replyProgress E (length (sent w))"]
  obtain ts where ts: "(case l of None \<Rightarrow> ?w0
          | Some cb \<Rightarrow> foldl (\<lambda>w' p. onDownloadProgress E cb p w') ?w0
              (replyProgress E (length (sent w)))) = ?w0\<lparr>statuses := ts\<rparr>"
    by (elim exE)
  have d: "(if c = 0 then 0 else noDelay c) = 0" by (simp add: noDelay_def)
  have "request E config m u l c w =
     (case settle (wire E (length (sent w))) of
        Inr setCookieHeader \<Rightarrow> (Inr setCookieHeader, ?w0\<lparr>statuses := ts\<rparr>)
      | Inl err \<Rightarrow>
          (case config of
             None \<Rightarrow> (Inl err, ?w0\<lparr>statuses := ts\<rparr>)
           | Some retries \<Rightarrow>
               if c < retries \<and> retryCondition err
               then request E config m u l (c + 1) (?w0\<lparr>statuses := ts\<rparr>)
               else (Inl err, ?w0\<lparr>statuses := ts\<rparr>)))"
    by (subst request.simps) (simp only: d ts Let_def)
  then have "request E config m u l c w =
     (case settle (wire E (length (sent w))) of
        Inr setCookieHeader \<Rightarrow> (Inr setCookieHeader, ?w0\<lparr>statuses := ts\<rparr>)
      | Inl err \<Rightarrow>
          (if (\<exists>retries. config = Some retries \<and> c < retries) \<and> retryCondition err
           then request E config m u l (c + 1) (?w0\<lparr>statuses := ts\<rparr>)
           else (Inl err, ?w0\<lparr>statuses := ts\<rparr>)))"
    by (simp split: sum.splits option.splits)
  then show ?thesis by (intro exI [of _ ts]) simp
qed

lemma request_run:
  "\<exists>k\<le>retries - c.
     sent (snd (request E (Some retries) m u l c w)) =
       sent w @ replicate (Suc k) \<lparr>reqMethod = m, reqUrl = u, reqDelay = 0\<rparr>
     \<and> (\<forall>j<k. \<exists>e. settle (wire E (length (sent w) + j)) = Inl e \<and> retryCondition e)
     \<and> fst (request E (Some retries) m u l c w) = settle (wire E (length (sent w) + k))
     \<and> (k < retries - c \<longrightarrow>
          \<not> (\<exists>e. settle (wire E (length (sent w) + k)) = Inl e \<and> retryCondition e))"
proof (induction "retries - c" arbitrary: c w)
  case 0
  then have nlt: "\<not> c < retries" by simp
  let ?a = "\<lparr>reqMethod = m, reqUrl = u, reqDelay = 0\<rparr>"
  from request_step [of E "Some retries" m u l c w]
  obtain ts where st: "request E (Some retries) m u l c w =
     (case settle (wire E (length (sent w))) of
        Inr setCookieHeader \<Rightarrow> (Inr setCookieHeader, w\<lparr>sent := sent w @ [?a], statuses := ts\<rparr>)
      | Inl err \<Rightarrow>
          (if (\<exists>r. Some retries = Some r \<and> c < r) \<and> retryCondition err
           then request E (Some retries) m u l (c + 1) (w\<lparr>sent := sent w @ [?a], statuses := ts\<rparr>)
           else (Inl err, w\<lparr>sent := sent w @ [?a], statuses := ts\<rparr>)))"
    by (elim exE)
  have "request E (Some retries) m u l c w =
      (settle (wire E (length (sent w))), w\<lparr>sent := sent w @ [?a], statuses := ts\<rparr>)"
    using nlt by (subst st) (simp split: sum.splits)
  then show ?case using 0 by (intro exI [of _ 0]) simp
next
  case (Suc n)
  let ?a = "\<lparr>reqMethod = m, reqUrl = u, reqDelay = 0\<rparr>"
  from request_step [of E "Some retries" m u l c w]
  obtain ts where st: "request E (Some retries) m u l c w =
     (case settle (wire E (length (sent w))) of
        Inr setCookieHeader \<Rightarrow> (Inr setCookieHeader, w\<lparr>sent := sent w @ [?a], statuses := ts\<rparr>)
      | Inl err \<Rightarrow>
          (if (\<exists>r. Some retries = Some r \<and> c < r) \<and> retryCondition err
           then request E (Some retries) m u l (c + 1) (w\<lparr>sent := sent w @ [?a], statuses := ts\<rparr>)
           else (Inl err, w\<lparr>sent := sent w @ [?a], statuses := ts\<rparr>)))"
    by (elim exE)
  let ?w1 = "w\<lparr>sent := sent w @ [?a], statuses := ts\<rparr>"
  show ?case
  proof (cases "\<exists>e. settle (wire E (length (sent w))) = Inl e \<and> retryCondition e")
    case False
    then have "request E (Some retries) m u l c w = (settle (wire E (length (sent w))), ?w1)"
      by (subst st) (auto split: sum.splits)
    with False show ?thesis
      by (intro exI [of _ 0]) simp
  next
    case True
    then obtain e where e: "settle (wire E (length (sent w))) = Inl e" "retryCondition e" by blast
    from Suc.hyps(2) have lt: "c < retries" by simp
    have step: "request E (Some retries) m u l c w = request E (Some retries) m u l (c + 1) ?w1"
      using e lt by (subst st) simp
    from Suc.hyps(2) have "n = retries - (c + 1)" by simp
    from Suc.hyps(1) [OF this, of ?w1]
    obtain k where k: "k \<le> retries - (c + 1)"
      and s: "sent (snd (request E (Some retries) m u l (c + 1) ?w1)) =
               sent ?w1 @ replicate (Suc k) ?a"
      and f: "\<forall>j<k. \<exists>e. settle (wire E (length (sent ?w1) + j)) = Inl e \<and> retryCondition e"
      and r: "fst (request E (Some retries) m u l (c + 1) ?w1) = settle (wire E (length (sent ?w1) + k))"
      and l: "k < retries - (c + 1) \<longrightarrow>
               \<not> (\<exists>e. settle (wire E (length (sent ?w1) + k)) = Inl e \<and> retryCondition e)"
      by blast
    have 1: "Suc k \<le> retries - c" using k lt by simp
    have 2: "sent (snd (request E (Some retries) m u l c w)) = sent w @ replicate (Suc (Suc k)) ?a"
      using s by (simp add: step)
    have 3: "\<forall>j<Suc k. \<exists>e. settle (wire E (length (sent w) + j)) = Inl e \<and> retryCondition e"
    proof (intro allI impI)
      fix j assume "j < Suc k"
      show "\<exists>e. settle (wire E (length (sent w) + j)) = Inl e \<and> retryCondition e"
      proof (cases j)
        case 0
        with e show ?thesis by auto
      next
        case (Suc i)
        with \<open>j < Suc k\<close> have "i < k" by simp
        with f have "\<exists>e. settle (wire E (length (sent ?w1) + i)) = Inl e \<and> retryCondition e" by blast
        then show ?thesis using Suc by simp
      qed
    qed
    have 4: "fst (request E (Some retries) m u l c w) = settle (wire E (length (sent w) + Suc k))"
      using r by (simp add: step)
    have 5: "Suc k < retries - c \<longrightarrow>
          \<not> (\<exists>e. settle (wire E (length (sent w) + Suc k)) = Inl e \<and> retryCondition e)"
      using l by auto
    from 1 2 3 4 5 show ?thesis by blast
  qed
qed

lemma request_frame:
  "\<exists>ss ts. snd (request E config m u l c w) = w\<lparr>sent := ss, statuses := ts\<rparr>"
proof (induction "the config - c" arbitrary: c w)
  case 0
  let ?a = "\<lparr>reqMethod = m, reqUrl = u, reqDelay = 0\<rparr>"
  from request_step [of E config m u l c w]
  obtain ts where st: "request E config m u l c w =
     (case settle (wire E (length (sent w))) of
        Inr setCookieHeader \<Rightarrow> (Inr setCookieHeader, w\<lparr>sent := sent w @ [?a], statuses := ts\<rparr>)
      | Inl err \<Rightarrow>
          (if (\<exists>retries. config = Some retries \<and> c < retries) \<and> retryCondition err
           then request E config m u l (c + 1) (w\<lparr>sent := sent w @ [?a], statuses := ts\<rparr>)
           else (Inl err, w\<lparr>sent := sent w @ [?a], statuses := ts\<rparr>)))"
    by (elim exE)
  from 0 have nr: "\<not> (\<exists>retries. config = Some retries \<and> c < retries)" by auto
  have "snd (request E config m u l c w) = w\<lparr>sent := sent w @ [?a], statuses := ts\<rparr>"
    by (subst st) (simp only: nr simp_thms if_False split: sum.splits, simp)
  then show ?case by blast
next
  case (Suc n)
  let ?a = "\<lparr>reqMethod = m, reqUrl = u, reqDelay = 0\<rparr>"
  from request_step [of E config m u l c w]
  obtain ts where st: "request E config m u l c w =
     (case settle (wire E (length (sent w))) of
        Inr setCookieHeader \<Rightarrow> (Inr setCookieHeader, w\<lparr>sent := sent w @ [?a], statuses := ts\<rparr>)
      | Inl err \<Rightarrow>
          (if (\<exists>retries. config = Some retries \<and> c < retries) \<and> retryCondition err
           then request E config m u l (c + 1) (w\<lparr>sent := sent w @ [?a], statuses := ts\<rparr>)
           else (Inl err, w\<lparr>sent := sent w @ [?a], statuses := ts\<rparr>)))"
    by (elim exE)
  let ?w1 = "w\<lparr>sent := sent w @ [?a], statuses := ts\<rparr>"
  from Suc.hyps(2) have "n = the config - (c + 1)" by simp
  from Suc.hyps(1) [OF this, of ?w1]
  obtain ss' ts' where rec: "snd (request E config m u l (c + 1) ?w1) = ?w1\<lparr>sent := ss', statuses := ts'\<rparr>"
    by blast
  from rec have rec': "snd (request E config m u l (Suc c) ?w1) = w\<lparr>sent := ss', statuses := ts'\<rparr>"
    by simp
  have "snd (request E config m u l c w) = ?w1
      \<or> snd (request E config m u l c w) = ?w1\<lparr>sent := ss', statuses := ts'\<rparr>"
    by (subst st, subst st) (simp add: rec' split: sum.splits)
  then show ?case
  proof
    assume "snd (request E config m u l c w) = ?w1"
    then show ?thesis by blast
  next
    assume "snd (request E config m u l c w) = ?w1\<lparr>sent := ss', statuses := ts'\<rparr>"
    then have "snd (request E config m u l c w) = w\<lparr>sent := ss', statuses := ts'\<rparr>" by simp
    then show ?thesis by blast
  qed
qed

lemma settle_retry:
  "(\<exists>e. settle reply = Inl e \<and> retryCondition e) \<longleftrightarrow>
   (case reply of NoResponse \<Rightarrow> True | Response status h \<Rightarrow> 400 \<le> status)"
  by (auto simp: settle_def retryCondition_def split: Reply.splits)

lemma sent_notify [simp]: "sent (notify cb s w) = sent w"
  by (simp add: notify_def)

lemma retryConfig_notify [simp]: "retryConfig (notify cb s w) = retryConfig w"
  by (simp add: notify_def)

lemma request_fields:
  "retryConfig (snd (request E config m u l c w)) = retryConfig w
   \<and> transfers (snd (request E config m u l c w)) = transfers w
   \<and> files (snd (request E config m u l c w)) = files w
   \<and> jars (snd (request E config m u l c w)) = jars w
   \<and> opened (snd (request E config m u l c w)) = opened w"
proof -
  from request_frame [of E config m u l c w]
  obtain ss ts where "snd (request E config m u l c w) = w\<lparr>sent := ss, statuses := ts\<rparr>"
    by blast
  then show ?thesis by simp
qed

lemma post_sent:
  "sent (snd (postWithCookies E url cookies w)) =
   sent (snd (request E (Some 3) POST url None 0 (w\<lparr>retryConfig := Some 3\<rparr>)))"
  by (simp add: postWithCookies_def Let_def split: prod.splits sum.splits)

lemma post_retryConfig: "retryConfig (snd (postWithCookies E url cookies w)) = Some 3"
proof -
  let ?w1 = "w\<lparr>retryConfig := Some 3\<rparr>"
  have "retryConfig (snd (request E (Some 3) POST url None 0 ?w1)) = Some 3"
    by (simp add: request_fields)
  then show ?thesis
    by (auto simp add: postWithCookies_def Let_def split: prod.splits sum.splits)
qed

lemma get_sent:
  assumes "openError E (opened w) = None"
  shows "sent (snd (getBinaryDataWithCookies E url c filename cb w)) =
   sent (snd (request E (retryConfig w) GET url (Some cb) 0
     (notify cb Waiting
        ((case c of Some r \<Rightarrow> w | None \<Rightarrow> w\<lparr>jars := snd (alloc Map.empty (jars w))\<rparr>)
           \<lparr>opened := opened w + 1,
            files := (files w)(filename \<mapsto> 0)\<rparr>))))"
  using assms
  by (cases c)
     (simp_all add: getBinaryDataWithCookies_def createWriteStream_def Let_def alloc_def
        fold_progress split: prod.splits sum.splits StreamEnd.splits)

lemma get_crash:
  assumes "openError E (opened w) = Some err"
  shows "fst (getBinaryDataWithCookies E url c filename cb w) = Inl (Uncaught err)
       \<and> sent (snd (getBinaryDataWithCookies E url c filename cb w)) = sent w"
  using assms
  by (cases c)
     (simp_all add: getBinaryDataWithCookies_def createWriteStream_def Let_def alloc_def)

lemma request_policy:
  "\<exists>k\<le>3.
     sent (snd (request E (Some 3) m u l 0 w)) =
       sent w @ replicate (Suc k) \<lparr>reqMethod = m, reqUrl = u, reqDelay = 0\<rparr>
     \<and> (\<forall>j<k. case wire E (length (sent w) + j) of
                  NoResponse \<Rightarrow> True | Response status h \<Rightarrow> 400 \<le> status)
     \<and> (k < 3 \<longrightarrow> (case wire E (length (sent w) + k) of
                  NoResponse \<Rightarrow> False | Response status h \<Rightarrow> status < 400))"
proof -
  from request_run [of 3 0 E m u l w]
  obtain k where k: "k \<le> 3"
    and s: "sent (snd (request E (Some 3) m u l 0 w)) =
       sent w @ replicate (Suc k) \<lparr>reqMethod = m, reqUrl = u, reqDelay = 0\<rparr>"
    and f: "\<forall>j<k. \<exists>e. settle (wire E (length (sent w) + j)) = Inl e \<and> retryCondition e"
    and l: "k < 3 \<longrightarrow> \<not> (\<exists>e. settle (wire E (length (sent w) + k)) = Inl e \<and> retryCondition e)"
    by auto
  have 2: "\<forall>j<k. case wire E (length (sent w) + j) of
                  NoResponse \<Rightarrow> True | Response status h \<Rightarrow> 400 \<le> status"
    using f by (simp only: settle_retry)
  have 3: "k < 3 \<longrightarrow> (case wire E (length (sent w) + k) of
                  NoResponse \<Rightarrow> False | Response status h \<Rightarrow> status < 400)"
    using l by (simp only: settle_retry) (auto split: Reply.splits)
  from k s 2 3 show ?thesis by blast
qed

text \<open>
  Claim C7, amended. Every POST and every GET of the HTTP layer is put on the wire at
  most four times: once, and then up to three retries. Attempt \<open>j + 1\<close> is made exactly
  when attempt \<open>j\<close> got no response or a status of 400 or more and fewer than three
  retries have been made; the request ends with the first attempt that got a status below
  400, or with the fourth attempt. No attempt is delayed. (The GET is retried under the
  options that the login POST before it installed. A GET whose write stream fails to open
  ends with the process, before any attempt: the rule for the next attempt is about a
  download whose stream opened, the bound of four is not.)
\<close>

theorem retry_policy:
  "(\<exists>k\<le>3.
      sent (snd (postWithCookies E url cookies w)) =
        sent w @ replicate (Suc k) \<lparr>reqMethod = POST, reqUrl = url, reqDelay = 0\<rparr>
      \<and> (\<forall>j<k. case wire E (length (sent w) + j) of
                   NoResponse \<Rightarrow> True | Response status h \<Rightarrow> 400 \<le> status)
      \<and> (k < 3 \<longrightarrow> (case wire E (length (sent w) + k) of
                   NoResponse \<Rightarrow> False | Response status h \<Rightarrow> status < 400)))
   \<and> retryConfig (snd (postWithCookies E url cookies w)) = Some 3
   \<and> (retryConfig w = Some 3 \<and> openError E (opened w) = None \<longrightarrow>
       (\<exists>k\<le>3.
          sent (snd (getBinaryDataWithCookies E url c filename cb w)) =
            sent w @ replicate (Suc k) \<lparr>reqMethod = GET, reqUrl = url, reqDelay = 0\<rparr>
          \<and> (\<forall>j<k. case wire E (length (sent w) + j) of
                       NoResponse \<Rightarrow> True | Response status h \<Rightarrow> 400 \<le> status)
          \<and> (k < 3 \<longrightarrow> (case wire E (length (sent w) + k) of
                       NoResponse \<Rightarrow> False | Response status h \<Rightarrow> status < 400))))
   \<and> (retryConfig w = Some 3 \<longrightarrow>
       length (sent (snd (getBinaryDataWithCookies E url c filename cb w))) \<le> length (sent w) + 4)"
proof -
  let ?w2 = "notify cb Waiting
        ((case c of Some r \<Rightarrow> w | None \<Rightarrow> w\<lparr>jars := snd (alloc Map.empty (jars w))\<rparr>)
           \<lparr>opened := opened w + 1, files := (files w)(filename \<mapsto> 0)\<rparr>)"
  have sw: "sent ?w2 = sent w"
    by (cases c) simp_all
  have post: "\<exists>k\<le>3.
      sent (snd (postWithCookies E url cookies w)) =
        sent w @ replicate (Suc k) \<lparr>reqMethod = POST, reqUrl = url, reqDelay = 0\<rparr>
      \<and> (\<forall>j<k. case wire E (length (sent w) + j) of
                   NoResponse \<Rightarrow> True | Response status h \<Rightarrow> 400 \<le> status)
      \<and> (k < 3 \<longrightarrow> (case wire E (length (sent w) + k) of
                   NoResponse \<Rightarrow> False | Response status h \<Rightarrow> status < 400))"
    using request_policy [of E POST url None "w\<lparr>retryConfig := Some 3\<rparr>"]
    by (simp only: post_sent) simp
  have get: "\<exists>k\<le>3.
          sent (snd (getBinaryDataWithCookies E url c filename cb w)) =
            sent w @ replicate (Suc k) \<lparr>reqMethod = GET, reqUrl = url, reqDelay = 0\<rparr>
          \<and> (\<forall>j<k. case wire E (length (sent w) + j) of
                       NoResponse \<Rightarrow> True | Response status h \<Rightarrow> 400 \<le> status)
          \<and> (k < 3 \<longrightarrow> (case wire E (length (sent w) + k) of
                       NoResponse \<Rightarrow> False | Response status h \<Rightarrow> status < 400))"
    if cfg: "retryConfig w = Some 3" and op: "openError E (opened w) = None"
    using request_policy [of E GET url "Some cb" ?w2]
    by (simp only: get_sent [OF op] cfg sw)
  have bound: "length (sent (snd (getBinaryDataWithCookies E url c filename cb w))) \<le> length (sent w) + 4"
    if cfg: "retryConfig w = Some 3"
  proof (cases "openError E (opened w)")
    case None
    from get [OF cfg None] obtain k where "k \<le> 3"
      and "sent (snd (getBinaryDataWithCookies E url c filename cb w)) =
            sent w @ replicate (Suc k) \<lparr>reqMethod = GET, reqUrl = url, reqDelay = 0\<rparr>"
      by blast
    then show ?thesis by simp
  next
    case (Some err)
    from get_crash [OF Some] show ?thesis by simp
  qed
  from post post_retryConfig [of E url cookies w] get bound show ?thesis by blast
qed

theorem retry_policy_counterexample:
  "length (sent (snd (getCookies offlineEnv ''nvr'' emptyWorld))) = 4
   \<and> fst (getCookies offlineEnv ''nvr'' emptyWorld) = Inl (AxiosError None)"
  by (simp add: getCookies_def alloc_def postWithCookies_def request.simps settle_def retryCondition_def
      offlineEnv_def okEnv_def emptyWorld_def noDelay_def Let_def)

theorem retry_policy_witness:
  "(\<exists>k\<le>3.
      sent (snd (postWithCookies flakyEnv ''login'' 0 (emptyWorld\<lparr>jars := [Map.empty]\<rparr>))) =
        sent (emptyWorld\<lparr>jars := [Map.empty]\<rparr>)
          @ replicate (Suc k) \<lparr>reqMethod = POST, reqUrl = ''login'', reqDelay = 0\<rparr>
      \<and> (\<forall>j<k. case wire flakyEnv (length (sent (emptyWorld\<lparr>jars := [Map.empty]\<rparr>)) + j) of
                   NoResponse \<Rightarrow> True | Response status h \<Rightarrow> 400 \<le> status)
      \<and> (k < 3 \<longrightarrow> (case wire flakyEnv (length (sent (emptyWorld\<lparr>jars := [Map.empty]\<rparr>)) + k) of
                   NoResponse \<Rightarrow> False | Response status h \<Rightarrow> status < 400)))
   \<and> sent (snd (postWithCookies flakyEnv ''login'' 0 (emptyWorld\<lparr>jars := [Map.empty]\<rparr>))) =
       [\<lparr>reqMethod = POST, reqUrl = ''login'', reqDelay = 0\<rparr>,
        \<lparr>reqMethod = POST, reqUrl = ''login'', reqDelay = 0\<rparr>]
   \<and> retryConfig (emptyWorld\<lparr>jars := [Map.empty], retryConfig := Some 3\<rparr>) = Some 3
   \<and> openError flakyEnv (opened (emptyWorld\<lparr>jars := [Map.empty], retryConfig := Some 3\<rparr>)) = None
   \<and> (\<exists>k\<le>3.
      sent (snd (getBinaryDataWithCookies flakyEnv ''export'' (Some 0) ''f.mp4'' True
                  (emptyWorld\<lparr>jars := [Map.empty], retryConfig := Some 3\<rparr>))) =
        sent (emptyWorld\<lparr>jars := [Map.empty], retryConfig := Some 3\<rparr>)
          @ replicate (Suc k) \<lparr>reqMethod = GET, reqUrl = ''export'', reqDelay = 0\<rparr>
      \<and> (\<forall>j<k. case wire flakyEnv
                       (length (sent (emptyWorld\<lparr>jars := [Map.empty], retryConfig := Some 3\<rparr>)) + j) of
                   NoResponse \<Rightarrow> True | Response status h \<Rightarrow> 400 \<le> status)
      \<and> (k < 3 \<longrightarrow> (case wire flakyEnv
                       (length (sent (emptyWorld\<lparr>jars := [Map.empty], retryConfig := Some 3\<rparr>)) + k) of
                   NoResponse \<Rightarrow> False | Response status h \<Rightarrow> status < 400)))
   \<and> sent (snd (getBinaryDataWithCookies flakyEnv ''export'' (Some 0) ''f.mp4'' True
                  (emptyWorld\<lparr>jars := [Map.empty], retryConfig := Some 3\<rparr>))) =
       [\<lparr>reqMethod = GET, reqUrl = ''export'', reqDelay = 0\<rparr>,
        \<lparr>reqMethod = GET, reqUrl = ''export'', reqDelay = 0\<rparr>]"
proof -
  let ?W = "emptyWorld\<lparr>jars := [Map.empty]\<rparr>"
  let ?V = "emptyWorld\<lparr>jars := [Map.empty], retryConfig := Some 3\<rparr>"
  have p: "sent (snd (postWithCookies flakyEnv ''login'' 0 ?W)) =
       [\<lparr>reqMethod = POST, reqUrl = ''login'', reqDelay = 0\<rparr>,
        \<lparr>reqMethod = POST, reqUrl = ''login'', reqDelay = 0\<rparr>]"
    by (simp add: postWithCookies_def request.simps settle_def retryCondition_def mergeSetCookie_def
        alloc_def flakyEnv_def okEnv_def emptyWorld_def noDelay_def Let_def)
  have g: "sent (snd (getBinaryDataWithCookies flakyEnv ''export'' (Some 0) ''f.mp4'' True ?V)) =
       [\<lparr>reqMethod = GET, reqUrl = ''export'', reqDelay = 0\<rparr>,
        \<lparr>reqMethod = GET, reqUrl = ''export'', reqDelay = 0\<rparr>]"
    by (simp add: getBinaryDataWithCookies_def createWriteStream_def request.simps settle_def
        retryCondition_def mergeSetCookie_def alloc_def flakyEnv_def okEnv_def emptyWorld_def
        noDelay_def notify_def onDownloadProgress_def Let_def)
  have c: "retryConfig ?V = Some 3"
    by simp
  have o: "openError flakyEnv (opened ?V) = None"
    by (simp add: flakyEnv_def okEnv_def)
  from retry_policy [of flakyEnv "''login''" 0 ?W]
  have 1: "\<exists>k\<le>3.
      sent (snd (postWithCookies flakyEnv ''login'' 0 ?W)) =
        sent ?W @ replicate (Suc k) \<lparr>reqMethod = POST, reqUrl = ''login'', reqDelay = 0\<rparr>
      \<and> (\<forall>j<k. case wire flakyEnv (length (sent ?W) + j) of
                   NoResponse \<Rightarrow> True | Response status h \<Rightarrow> 400 \<le> status)
      \<and> (k < 3 \<longrightarrow> (case wire flakyEnv (length (sent ?W) + k) of
                   NoResponse \<Rightarrow> False | Response status h \<Rightarrow> status < 400))"
    by blast
  from retry_policy [where E = flakyEnv and url = "''export''" and w = ?V and c = "Some 0"
                        and filename = "''f.mp4''" and cb = True] c o
  have 2: "\<exists>k\<le>3.
      sent (snd (getBinaryDataWithCookies flakyEnv ''export'' (Some 0) ''f.mp4'' True ?V)) =
        sent ?V @ replicate (Suc k) \<lparr>reqMethod = GET, reqUrl = ''export'', reqDelay = 0\<rparr>
      \<and> (\<forall>j<k. case wire flakyEnv (length (sent ?V) + j) of
                   NoResponse \<Rightarrow> True | Response status h \<Rightarrow> 400 \<le> status)
      \<and> (k < 3 \<longrightarrow> (case wire flakyEnv (length (sent ?V) + k) of
                   NoResponse \<Rightarrow> False | Response status h \<Rightarrow> status < 400))"
    by blast
  from 1 p c o 2 g show ?thesis by blast
qed

section \<open>Evaluation of whole jobs\<close>

lemmas eval_defs = fetchVideo_def isBefore_def differenceInMinutes_def
   trunc_def maxMinuteDiff_def add_def cameraBody_def exportUrl_def baseFilename_def formatDate_def cameraLabel_def
   checkExisting_def existsSync_def downloadChunk_def dateNow_def getCookies_def alloc_def postWithCookies_def
   request.simps settle_def mergeSetCookie_def getBinaryDataWithCookies_def createWriteStream_def notify_def
   statSync_def differenceInSeconds_def convertChunk_def mp4Flag_def showInt_def digits.simps Let_def currentEnd_def
   throughputString_def jsDivide_def isZero_def isInfinite_def isNegative_def finiteValue_def jsGreater_def
   mathRound_def toString_def okEnv_def emptyWorld_def cameraA_def cameraB_def noDelay_def retryCondition_def
   unlinkSync_def convertToMkv_def onDownloadProgress_def percent_def

section \<open>Stream failures\<close>

text \<open>
  After the response has arrived the listeners of lines 181-196 are in place: a failure of
  the write stream or of the response stream then ends the status log with the \<open>Error\<close>
  event of the listener, the download fails with that failure, nothing more is put on the
  wire and the body has been streamed once.
\<close>

lemma stream_errors_after_response:
  assumes "openError E (opened w) = None"
    and "request E (retryConfig w) GET url (Some True) 0
           (notify True Waiting (snd (createWriteStream E filename w)))
             = (Inr setCookieHeader, w3)"
  shows "(ending (transfer E (transfers w)) = WriterError err \<longrightarrow>
            fst (getBinaryDataWithCookies E url (Some cookies) filename True w) = Inl err
          \<and> last (statuses (snd (getBinaryDataWithCookies E url (Some cookies) filename True w)))
              = Error err (''Error writing to the file '' @ filename)
          \<and> sent (snd (getBinaryDataWithCookies E url (Some cookies) filename True w)) = sent w3
          \<and> transfers (snd (getBinaryDataWithCookies E url (Some cookies) filename True w))
              = transfers w + 1)
       \<and> (ending (transfer E (transfers w)) = ResponseError err \<longrightarrow>
            fst (getBinaryDataWithCookies E url (Some cookies) filename True w) = Inl err
          \<and> last (statuses (snd (getBinaryDataWithCookies E url (Some cookies) filename True w)))
              = Error err ''Error reading the response from the server''
          \<and> sent (snd (getBinaryDataWithCookies E url (Some cookies) filename True w)) = sent w3
          \<and> transfers (snd (getBinaryDataWithCookies E url (Some cookies) filename True w))
              = transfers w + 1)"
proof -
  let ?w1 = "w\<lparr>opened := opened w + 1, files := (files w)(filename \<mapsto> 0)\<rparr>"
  have cw: "createWriteStream E filename w = (None, ?w1)"
    using assms(1) by (simp add: createWriteStream_def)
  have cfg: "retryConfig ?w1 = retryConfig w" by simp
  from assms(2) have rq: "request E (retryConfig w) GET url (Some True) 0 (notify True Waiting ?w1)
      = (Inr setCookieHeader, w3)"
    by (simp add: cw)
  have "transfers (snd (request E (retryConfig w) GET url (Some True) 0 (notify True Waiting ?w1)))
          = transfers (notify True Waiting ?w1)"
    by (simp add: request_fields)
  with rq have t: "transfers w3 = transfers w"
    by (simp add: notify_def)
  obtain u h where m: "mergeSetCookie setCookieHeader cookies (jars w3) = (u, h)"
    by (cases "mergeSetCookie setCookieHeader cookies (jars w3)")
  have G: "getBinaryDataWithCookies E url (Some cookies) filename True w =
     (let tr = transfer E (transfers w3);
          w6 = foldl (\<lambda>w' p. onDownloadProgress E True p w')
                 (w3\<lparr>transfers := transfers w3 + 1, jars := h\<rparr>) (progress tr);
          w7 = w6\<lparr>files := (files w6)(filename \<mapsto> written tr)\<rparr> in
      case ending tr of
        Finish \<Rightarrow> (Inr u, notify True (Downloading (Some ''100%'')) w7)
      | WriterError e \<Rightarrow>
          (Inl e, notify True (Error e (''Error writing to the file '' @ filename)) w7)
      | ResponseError e \<Rightarrow>
          (Inl e, notify True (Error e ''Error reading the response from the server'') w7))"
    using rq m by (simp add: getBinaryDataWithCookies_def Let_def cw)
  have st: "statuses (notify True s w0) = statuses w0 @ [s]" for s w0
    by (simp add: notify_def)
  have tn: "transfers (notify True s w0) = transfers w0" for s w0
    by (simp add: notify_def)
  show ?thesis
    by (simp add: G Let_def st tn fold_progress t)
qed

lemma stream_errors_after_response_example:
  "fst (getBinaryDataWithCookies diskFullEnv ''u'' (Some 0) ''f.mp4'' True (emptyWorld\<lparr>jars := [Map.empty]\<rparr>))
     = Inl (StreamError ''ENOSPC'')
   \<and> last (statuses (snd (getBinaryDataWithCookies diskFullEnv ''u'' (Some 0) ''f.mp4'' True
        (emptyWorld\<lparr>jars := [Map.empty]\<rparr>))))
     = Error (StreamError ''ENOSPC'') ''Error writing to the file f.mp4''
   \<and> fst (getBinaryDataWithCookies droppedEnv ''u'' (Some 0) ''f.mp4'' True (emptyWorld\<lparr>jars := [Map.empty]\<rparr>))
     = Inl (StreamError ''ECONNRESET'')
   \<and> last (statuses (snd (getBinaryDataWithCookies droppedEnv ''u'' (Some 0) ''f.mp4'' True
        (emptyWorld\<lparr>jars := [Map.empty]\<rparr>))))
     = Error (StreamError ''ECONNRESET'') ''Error reading the response from the server''"
proof -
  let ?W = "emptyWorld\<lparr>jars := [Map.empty]\<rparr>"
  let ?R1 = "request diskFullEnv (retryConfig ?W) GET ''u'' (Some True) 0
               (notify True Waiting (snd (createWriteStream diskFullEnv ''f.mp4'' ?W)))"
  let ?R2 = "request droppedEnv (retryConfig ?W) GET ''u'' (Some True) 0
               (notify True Waiting (snd (createWriteStream droppedEnv ''f.mp4'' ?W)))"
  have o1: "openError diskFullEnv (opened ?W) = None"
    by (simp add: diskFullEnv_def okEnv_def)
  have o2: "openError droppedEnv (opened ?W) = None"
    by (simp add: droppedEnv_def okEnv_def)
  have h1: "?R1 = (Inr None, snd ?R1)"
    by (simp add: request.simps settle_def diskFullEnv_def okEnv_def emptyWorld_def Let_def
        createWriteStream_def)
  have h2: "?R2 = (Inr None, snd ?R2)"
    by (simp add: request.simps settle_def droppedEnv_def okEnv_def emptyWorld_def Let_def
        createWriteStream_def)
  have e1: "ending (transfer diskFullEnv (transfers ?W)) = WriterError (StreamError ''ENOSPC'')"
    by (simp add: diskFullEnv_def okEnv_def)
  have e2: "ending (transfer droppedEnv (transfers ?W)) = ResponseError (StreamError ''ECONNRESET'')"
    by (simp add: droppedEnv_def okEnv_def)
  from stream_errors_after_response [OF o1 h1, of "StreamError ''ENOSPC''" 0] e1
       stream_errors_after_response [OF o2 h2, of "StreamError ''ECONNRESET''" 0] e2
  show ?thesis by simp
qed

text \<open>
  Claim C6. A destination that cannot be opened for writing: the \<^verbatim>\<open>error\<close> event of
  the write stream fires while the response is awaited at line 148, before line 181 has
  attached the listener. The callback has received \<open>Waiting\<close> and receives nothing else,
  so no \<open>Error\<close> status, and the download is not rejected with the failure: the process
  ends with the uncaught event, for the download alone and for the whole job.
\<close>

theorem unopened_stream_is_not_reported:
  "fst (getBinaryDataWithCookies unwritableEnv ''u'' (Some 0) ''f.mp4'' True
         (emptyWorld\<lparr>jars := [Map.empty]\<rparr>)) = Inl (Uncaught (StreamError ''EACCES''))
   \<and> statuses (snd (getBinaryDataWithCookies unwritableEnv ''u'' (Some 0) ''f.mp4'' True
         (emptyWorld\<lparr>jars := [Map.empty]\<rparr>))) = [Waiting]
   \<and> (case fetchVideo unwritableEnv hourArgs emptyWorld of
        Some (Inl (err, w)) \<Rightarrow> err = Uncaught (StreamError ''EACCES'') \<and> statuses w = [Waiting]
      | _ \<Rightarrow> False)"
  by (simp add: eval_defs unwritableEnv_def hourArgs_def whileWindows.simps)

section \<open>Files already at the destination\<close>



section \<open>Remux failures\<close>

lemma whileWindows_roundStart:
  "roundStart E args job0 job \<Longrightarrow> whileWindows E args job0 = whileWindows E args job"
proof (induction rule: roundStart.induct)
  case entry
  show ?case by simp
next
  case (round job job')
  have "whileWindows E args job = whileWindows E args job'"
    using round.hyps(2,3) by (subst whileWindows.simps) simp
  with round.IH show ?case by simp
qed

lemma forCameras_abort:
  "forCameras E args cEnd before job = Inr job1 \<Longrightarrow> cameraBody E args cEnd camera job1 = Inl x \<Longrightarrow>
   forCameras E args cEnd (before @ camera # rest) job = Inl x"
  by (induction before arbitrary: job) (auto split: sum.splits)

lemma whileWindows_abort:
  "isBefore (fst job) (endDate args) \<Longrightarrow>
   forCameras E args (currentEnd args (fst job)) (cameras args) job = Inl x \<Longrightarrow>
   whileWindows E args job = Some (Inl x)"
  by (subst whileWindows.simps) simp

lemma files_notify [simp]: "files (notify cb s w) = files w"
  by (simp add: notify_def)

lemma conversions_notify [simp]: "conversions (notify cb s w) = conversions w"
  by (simp add: notify_def)

lemma downloadChunk_file:
  "downloadChunk E args url f w = Inr w2 \<Longrightarrow> files w2 f \<noteq> None"
  by (auto simp add: downloadChunk_def dateNow_def statSync_def Let_def
      split: prod.splits sum.splits option.splits)

lemma convertChunk_fail:
  assumes "mp4 args = Some False" "failure (ffmpeg E (conversions w)) = Some err" "f \<noteq> g"
  shows "\<exists>w'. convertChunk E args f g w = Inl (err, w') \<and> files w' f = files w f"
  using assms
  by (simp add: convertChunk_def mp4Flag_def convertToMkv_def Let_def split: option.splits)

text \<open>
  Claim C5. With the MP4 flag false, take any round of the loop that the job reaches and
  any camera in it before which the round did not throw. If its file was not skipped, its
  download succeeded and the ffmpeg run fails, then the whole job ends with that failure,
  and in the world it leaves the downloaded \<open>.mp4\<close> file is there, as the download left
  it: the \<^verbatim>\<open>unlinkSync\<close> of line 348 is not reached.
\<close>

theorem remux_failure_keeps_source:
  assumes "mp4 args = Some False"
    and "roundStart E args (start args, [], w0) job"
    and "isBefore (fst job) (endDate args)"
    and "cameras args = before @ camera # rest"
    and "forCameras E args (currentEnd args (fst job)) before job = Inr (currentStart, outputFiles, w)"
    and "mp4Filename = baseFilename E camera currentStart (currentEnd args (fst job)) @ ''.mp4''"
    and "checkExisting mp4Filename w = Inr (False, w1)"
    and "downloadChunk E args
           (exportUrl (ipAddress args) camera currentStart (currentEnd args (fst job)))
           mp4Filename w1 = Inr w2"
    and "failure (ffmpeg E (conversions w2)) = Some err"
  shows "\<exists>w'. fetchVideo E args w0 = Some (Inl (err, w'))
            \<and> files w' mp4Filename = files w2 mp4Filename
            \<and> files w' mp4Filename \<noteq> None"
proof -
  let ?base = "baseFilename E camera currentStart (currentEnd args (fst job))"
  have ne: "?base @ ''.mp4'' \<noteq> ?base @ ''.mkv''" by simp
  from convertChunk_fail [OF assms(1) assms(9) ne]
  obtain w' where c: "convertChunk E args (?base @ ''.mp4'') (?base @ ''.mkv'') w2 = Inl (err, w')"
    and f: "files w' (?base @ ''.mp4'') = files w2 (?base @ ''.mp4'')"
    by blast
  have body: "cameraBody E args (currentEnd args (fst job)) camera (currentStart, outputFiles, w)
                = Inl (err, w')"
    using assms(7,8) c unfolding assms(6)
    by (simp add: cameraBody_def Let_def)
  have "forCameras E args (currentEnd args (fst job)) (cameras args) job = Inl (err, w')"
    unfolding assms(4) using assms(5) body by (rule forCameras_abort)
  with assms(3) have "whileWindows E args job = Some (Inl (err, w'))"
    by (rule whileWindows_abort)
  with whileWindows_roundStart [OF assms(2)]
  have "fetchVideo E args w0 = Some (Inl (err, w'))"
    by (simp add: fetchVideo_def)
  moreover have "files w' mp4Filename = files w2 mp4Filename"
    using f by (simp add: assms(6))
  moreover have "files w2 mp4Filename \<noteq> None"
    using assms(8) by (rule downloadChunk_file)
  ultimately show ?thesis by auto
qed

theorem remux_failure_keeps_source_witness:
  "\<exists>w'. fetchVideo brokenFfmpegEnv mkvArgs emptyWorld = Some (Inl (FfmpegError ''exit 1'', w'))
      \<and> files w' ''0_3600000_A.mp4'' \<noteq> None"
proof -
  let ?job = "(start mkvArgs, [], emptyWorld) :: Job"
  let ?url = "exportUrl (ipAddress mkvArgs) cameraA 0 (currentEnd mkvArgs (fst ?job))"
  let ?D = "downloadChunk brokenFfmpegEnv mkvArgs ?url ''0_3600000_A.mp4'' emptyWorld"
  have a1: "mp4 mkvArgs = Some False"
    by (simp add: mkvArgs_def hourArgs_def)
  have a2: "roundStart brokenFfmpegEnv mkvArgs (start mkvArgs, [], emptyWorld) ?job"
    by (rule roundStart.entry)
  have a3: "isBefore (fst ?job) (endDate mkvArgs)"
    by (simp add: isBefore_def mkvArgs_def hourArgs_def)
  have a4: "cameras mkvArgs = [] @ cameraA # []"
    by (simp add: mkvArgs_def hourArgs_def)
  have a5: "forCameras brokenFfmpegEnv mkvArgs (currentEnd mkvArgs (fst ?job)) [] ?job = Inr (0, [], emptyWorld)"
    by (simp add: mkvArgs_def hourArgs_def)
  have a6: "''0_3600000_A.mp4'' = baseFilename brokenFfmpegEnv cameraA 0 (currentEnd mkvArgs (fst ?job)) @ ''.mp4''"
    by (simp add: baseFilename_def formatDate_def cameraLabel_def brokenFfmpegEnv_def okEnv_def cameraA_def
        showInt_def digits.simps currentEnd_def differenceInMinutes_def trunc_def maxMinuteDiff_def
        mkvArgs_def hourArgs_def)
  have a7: "checkExisting ''0_3600000_A.mp4'' emptyWorld = Inr (False, emptyWorld)"
    by (simp add: checkExisting_def existsSync_def emptyWorld_def)
  have a8: "?D = Inr (projr ?D)"
    by (simp add: eval_defs brokenFfmpegEnv_def mkvArgs_def hourArgs_def)
  have a9: "failure (ffmpeg brokenFfmpegEnv (conversions (projr ?D))) = Some (FfmpegError ''exit 1'')"
    by (simp add: brokenFfmpegEnv_def okEnv_def)
  from remux_failure_keeps_source [OF a1 a2 a3 a4 a5 a6 a7 a8 a9]
  show ?thesis by blast
qed

section \<open>The planned windows\<close>

lemma no_cameras_never_ends_aux:
  "whileWindows E args job = Some y \<Longrightarrow> \<not> (cameras args = [] \<and> isBefore (fst job) (endDate args))"
proof (induction rule: whileWindows.raw_induct [rotated 1, consumes 1])
  case (1 whileWindows' E args job y)
  show ?case
  proof
    assume h: "cameras args = [] \<and> isBefore (fst job) (endDate args)"
    with 1(2) have "whileWindows' E args job = Some y" by simp
    from 1(1) [OF this] h show False by simp
  qed
qed

lemma no_cameras_never_ends:
  "cameras args = [] \<Longrightarrow> start args < endDate args \<Longrightarrow> fetchVideo E args w = None"
proof -
  assume c: "cameras args = []" and lt: "start args < endDate args"
  have "whileWindows E args (start args, [], w) = None"
  proof (cases "whileWindows E args (start args, [], w)")
    case None
    then show ?thesis .
  next
    case (Some y)
    from no_cameras_never_ends_aux [OF Some] c lt show ?thesis by (simp add: isBefore_def)
  qed
  then show ?thesis by (simp add: fetchVideo_def)
qed

lemma empty_range_no_window:
  "\<not> start args < endDate args \<Longrightarrow> fetchVideo E args w = Some (Inr ([], w))"
  by (subst fetchVideo_def, subst whileWindows.simps) (simp add: isBefore_def)

text \<open>
  Claim C1. With two cameras and a range of two hours, the one round of the loop builds
  the URL and the file name of camera A from the window \<open>(0, 3600000)\<close> and those of
  camera B from \<open>(3600000, 3600000)\<close>: line 297 advances the start inside the loop over
  the cameras, once per camera. The second hour is requested for neither camera. With no
  camera at all the start is never advanced and the job does not end.
\<close>

theorem two_cameras_share_no_window:
  "(case fetchVideo okEnv twoCameraArgs emptyWorld of
      Some (Inr (outputFiles, w)) \<Rightarrow>
        map reqUrl (filter (\<lambda>a. reqMethod a = GET) (sent w)) =
          [''https://nvr:443/proxy/protect/api/video/export?camera=A&start=0&end=3600000'',
           ''https://nvr:443/proxy/protect/api/video/export?camera=B&start=3600000&end=3600000'']
        \<and> map outFilename outputFiles = [''0_3600000_A.mp4'', ''3600000_3600000_B.mp4'']
    | _ \<Rightarrow> False)
   \<and> fetchVideo okEnv (hourArgs\<lparr>cameras := []\<rparr>) emptyWorld = None"
proof -
  have "fetchVideo okEnv (hourArgs\<lparr>cameras := []\<rparr>) emptyWorld = None"
    by (rule no_cameras_never_ends) (simp_all add: hourArgs_def)
  then show ?thesis
    by (simp add: eval_defs twoCameraArgs_def whileWindows.simps)
qed

text \<open>
  Claim C2. For one camera and a range of an hour and thirty seconds the loop plans the
  windows \<open>(0, 3630000)\<close> and \<open>(3600000, 3630000)\<close>: \<^verbatim>\<open>differenceInMinutes\<close>
  truncates the remaining 60.5 minutes to 60, which is not more than \<open>maxMinuteDiff\<close>, so
  the first window runs to the end of the range, longer than 60 minutes, and the second
  window repeats its last thirty seconds.
\<close>

theorem odd_range_windows_overlap:
  "(case fetchVideo okEnv oddRangeArgs emptyWorld of
      Some (Inr (outputFiles, w)) \<Rightarrow>
        map reqUrl (filter (\<lambda>a. reqMethod a = GET) (sent w)) =
          [''https://nvr:443/proxy/protect/api/video/export?camera=A&start=0&end=3630000'',
           ''https://nvr:443/proxy/protect/api/video/export?camera=A&start=3600000&end=3630000'']
        \<and> map outFilename outputFiles = [''0_3630000_A.mp4'', ''3600000_3630000_A.mp4'']
    | _ \<Rightarrow> False)"
  by (simp add: eval_defs oddRangeArgs_def whileWindows.simps)

text \<open>
  Claim C9. The divisor of the throughput is the elapsed time truncated to whole seconds.
  For a download that takes half a second it is zero: the division yields infinity for a
  file with content and NaN for an empty one, and the status of the job reads
  \<^verbatim>\<open>Infinity MB\<close>.
\<close>

theorem subsecond_download_divides_by_zero:
  "differenceInSeconds 500 0 = Num 0
   \<and> throughputString 1000 (differenceInSeconds 500 0) = ''Infinity MB''
   \<and> throughputString 0 (differenceInSeconds 500 0) = ''NaN B''
   \<and> (case fetchVideo quickEnv hourArgs emptyWorld of
        Some (Inr (outputFiles, w)) \<Rightarrow>
          statuses w = [Waiting, Downloading (Some ''100%''), DownloadThroughput ''Infinity MB'']
      | _ \<Rightarrow> False)"
  by (simp add: eval_defs quickEnv_def hourArgs_def whileWindows.simps)

end
